theory Spec2Isabelle
  imports Complex_Main "HOL-Library.AList" "HOL-Library.Sublist"
begin

section \<open>JavaScript values, objects and the store\<close>

text \<open>
  The adapter of \<^verbatim>\<open>DataStore.js\<close> works on dynamically typed values: configuration
  values, inventory items and order payloads are plain data (what \<^verbatim>\<open>JSON.parse\<close> or
  an object literal produces). Objects and arrays are mutable and shared by reference,
  so they live in a store and a value only holds their address.

  A number is NaN, an infinity or a finite value; finite values are rationals, of which
  the doubles are a subset. The two zeros are one value here: truthiness and
  \<^verbatim>\<open>=== 0\<close>, the only operations on numbers in this file, do not tell them apart.

  A \<open>char\<close> stands for one code unit of a JavaScript string, so strings are those
  whose code units are below 256.
\<close>

datatype jsnum = NaN | PosInf | NegInf | Fin rat

datatype jsval =
    JUndefined
  | JNull
  | JBool bool
  | JNum jsnum
  | JStr string
  | JRef nat

text \<open>
  A cell of the store is a plain object, its own enumerable properties in order, or an
  array. Properties found on the prototypes (\<^verbatim>\<open>toString\<close>, \<^verbatim>\<open>constructor\<close>, ...)
  are not part of a cell; no property name read in \<^verbatim>\<open>DataStore.js\<close> is one of them.
\<close>

datatype cell = Obj "(string \<times> jsval) list" | Arr "jsval list"

type_synonym store = "cell list"

datatype error =
    TypeError
  | Error string "jsval option"
  | Rejected string

text \<open>
  \<open>TypeError\<close>: reading a property of \<^verbatim>\<open>undefined\<close> or \<^verbatim>\<open>null\<close>, or calling a method
  that the value does not have. \<open>Error msg cause\<close>: \<^verbatim>\<open>new Error(msg, options)\<close>.
  \<open>Rejected\<close>: a rejection of \<^verbatim>\<open>fetch\<close> or of \<^verbatim>\<open>response.json()\<close>.
\<close>

definition bindE :: "error + 'a \<Rightarrow> ('a \<Rightarrow> error + 'b) \<Rightarrow> error + 'b" where
  "bindE m f = (case m of Inl e \<Rightarrow> Inl e | Inr x \<Rightarrow> f x)"

definition cell_at :: "store \<Rightarrow> nat \<Rightarrow> cell" where
  \<comment> \<open>An address outside the store does not occur in a JavaScript program; it reads as
      an empty object.\<close>
  "cell_at h a = (if a < length h then h ! a else Obj [])"

definition alloc :: "store \<Rightarrow> cell \<Rightarrow> nat \<times> store" where
  "alloc h c = (length h, h @ [c])"

definition own_props :: "cell \<Rightarrow> (string \<times> jsval) list" where
  "own_props c = (case c of Obj fs \<Rightarrow> fs | Arr xs \<Rightarrow> [])"

definition lookup :: "(string \<times> jsval) list \<Rightarrow> string \<Rightarrow> jsval" where
  \<comment> \<open>A property that is not there reads as \<^verbatim>\<open>undefined\<close>.\<close>
  "lookup fs k = (case map_of fs k of None \<Rightarrow> JUndefined | Some v \<Rightarrow> v)"

fun truthy :: "jsval \<Rightarrow> bool" where
  "truthy JUndefined = False"
| "truthy JNull = False"
| "truthy (JBool b) = b"
| "truthy (JNum n) = (n \<noteq> NaN \<and> n \<noteq> Fin 0)"
| "truthy (JStr s) = (s \<noteq> [])"
| "truthy (JRef a) = True"

subsection \<open>Decimal index names\<close>

definition digit_char :: "nat \<Rightarrow> char" where
  "digit_char d = ''0123456789'' ! (d mod 10)"

fun dec :: "nat \<Rightarrow> string" where
  "dec n = (if n < 10 then [digit_char n] else dec (n div 10) @ [digit_char n])"

declare dec.simps [simp del]

definition indexed :: "jsval list \<Rightarrow> (string \<times> jsval) list" where
  \<comment> \<open>The index properties \<^verbatim>\<open>"0"\<close>, \<^verbatim>\<open>"1"\<close>, ... of an array or a string.\<close>
  "indexed xs = map (\<lambda>i. (dec i, xs ! i)) [0 ..< length xs]"

subsection \<open>Reading properties\<close>

fun get_prop :: "store \<Rightarrow> jsval \<Rightarrow> string \<Rightarrow> error + jsval" where
  \<comment> \<open>\<^verbatim>\<open>v.k\<close> for a name \<open>k\<close> that is neither \<^verbatim>\<open>length\<close> nor an index nor on a
      prototype: every name written in \<^verbatim>\<open>DataStore.js\<close>.\<close>
  "get_prop h JUndefined k = Inl TypeError"
| "get_prop h JNull k = Inl TypeError"
| "get_prop h (JRef a) k = Inr (lookup (own_props (cell_at h a)) k)"
| "get_prop h v k = Inr JUndefined"

fun get_index :: "store \<Rightarrow> jsval \<Rightarrow> nat \<Rightarrow> error + jsval" where
  \<comment> \<open>\<^verbatim>\<open>v[i]\<close> for an integer \<open>i\<close>.\<close>
  "get_index h JUndefined i = Inl TypeError"
| "get_index h JNull i = Inl TypeError"
| "get_index h (JRef a) i =
     (case cell_at h a of
        Obj fs \<Rightarrow> Inr (lookup fs (dec i))
      | Arr xs \<Rightarrow> Inr (if i < length xs then xs ! i else JUndefined))"
| "get_index h (JStr s) i = Inr (if i < length s then JStr [s ! i] else JUndefined)"
| "get_index h v i = Inr JUndefined"

fun spread :: "store \<Rightarrow> jsval \<Rightarrow> (string \<times> jsval) list" where
  \<comment> \<open>The properties that \<^verbatim>\<open>{...v}\<close> copies: the own enumerable ones.\<close>
  "spread h (JRef a) = (case cell_at h a of Obj fs \<Rightarrow> fs | Arr xs \<Rightarrow> indexed xs)"
| "spread h (JStr s) = indexed (map (\<lambda>c. JStr [c]) s)"
| "spread h v = []"

section \<open>Credentials\<close>

subsection \<open>The pattern of the combined credentials string\<close>

text \<open>
  \<^verbatim>\<open>rawCredentials.match(/Store ID (\d{5}) API Key ([A-Za-z0-9]+)$/)\<close>: the pattern has
  no flags, so \<^verbatim>\<open>\d\<close> is an ASCII digit, \<^verbatim>\<open>$\<close> is the end of the input, and the
  result is \<^verbatim>\<open>null\<close> or the array of the matched text and the two groups, for the
  leftmost position where the pattern matches.
\<close>

definition is_digit :: "char \<Rightarrow> bool" where
  "is_digit c = (c \<in> set ''0123456789'')"

definition is_alnum :: "char \<Rightarrow> bool" where
  "is_alnum c =
     (c \<in> set ''ABCDEFGHIJKLMNOPQRSTUVWXYZabcdefghijklmnopqrstuvwxyz0123456789'')"

definition match_here :: "string \<Rightarrow> string list option" where
  \<comment> \<open>The pattern tried at the start of \<open>s\<close>. After the fixed texts and the five digits,
      the greedy \<^verbatim>\<open>[A-Za-z0-9]+\<close> has to reach the end of \<open>s\<close> for \<^verbatim>\<open>$\<close> to hold.\<close>
  "match_here s =
     (let d = take 5 (drop 9 s); k = drop 23 s
      in if take 9 s = ''Store ID '' \<and> length d = 5 \<and> list_all is_digit d
            \<and> take 9 (drop 14 s) = '' API Key '' \<and> k \<noteq> [] \<and> list_all is_alnum k
         then Some [s, d, k] else None)"

fun regex_match :: "string \<Rightarrow> string list option" where
  \<comment> \<open>Start positions from left to right; the last one tried is the end of the string.\<close>
  "regex_match s =
     (case match_here s of
        Some m \<Rightarrow> Some m
      | None \<Rightarrow> (case s of [] \<Rightarrow> None | c # cs \<Rightarrow> regex_match cs))"

declare regex_match.simps [simp del]

definition string_match :: "jsval \<Rightarrow> error + string list option" where
  \<comment> \<open>\<^verbatim>\<open>v.match(...)\<close>: only a string has the method.\<close>
  "string_match v = (case v of JStr s \<Rightarrow> Inr (regex_match s) | _ \<Rightarrow> Inl TypeError)"

subsection \<open>Resolving the credentials\<close>

text \<open>
  \<^verbatim>\<open>config.js\<close> is not part of this file. What \<^verbatim>\<open>parseConfigCredentials\<close> reads of it
  is taken as given: \<^verbatim>\<open>config.datastore.credentials\<close> and the two fields
  \<^verbatim>\<open>storeId\<close> and \<^verbatim>\<open>apiKey\<close> of \<^verbatim>\<open>config.datastore.provider.orderDesk\<close>, each of
  them any value, \<^verbatim>\<open>undefined\<close> when it is not set.
\<close>

record config =
  credentials_cfg :: jsval
  storeId :: jsval
  apiKey :: jsval

record credentials =
  id_cred :: jsval
  key_cred :: jsval

definition parseConfigCredentials :: "config \<Rightarrow> error + credentials" where
  "parseConfigCredentials cfg =
     (let rawCredentials = credentials_cfg cfg
      in bindE (if truthy rawCredentials then string_match rawCredentials else Inr None)
           (\<lambda>matched.
              case matched of
                Some m \<Rightarrow>
                  if length m = 3
                  then Inr \<lparr>id_cred = JStr (m ! 1), key_cred = JStr (m ! 2)\<rparr>
                  else Inr \<lparr>id_cred = storeId cfg, key_cred = apiKey cfg\<rparr>
              | None \<Rightarrow> Inr \<lparr>id_cred = storeId cfg, key_cred = apiKey cfg\<rparr>))"

text \<open>
  The adapter object. \<^verbatim>\<open>super()\<close> runs the constructor of \<^verbatim>\<open>DataStoreBase\<close>, which
  is not part of this file; it is taken to return normally and to set none of the three
  fields below, which the constructor of \<^verbatim>\<open>DataStore\<close> then sets itself.
\<close>

record datastore =
  domain :: string
  api :: string
  credentials :: "credentials option"

definition missing_credentials :: error where
  "missing_credentials =
     Error ''Environment variables for OrderDesk store id and/or API key are missing.'' None"

definition setCredentials :: "config \<Rightarrow> datastore \<Rightarrow> error + datastore" where
  "setCredentials cfg this =
     bindE (parseConfigCredentials cfg)
       (\<lambda>c. if \<not> truthy (key_cred c) \<or> \<not> truthy (id_cred c)
             then Inl missing_credentials
             else Inr (this\<lparr>credentials := Some c\<rparr>))"

definition constructor :: "config \<Rightarrow> error + datastore" where
  "constructor cfg =
     setCredentials cfg \<lparr>domain = ''app.orderdesk.me'', api = ''api/v2/'', credentials = None\<rparr>"

text \<open>The pattern in the words of the specification: \<open>Store ID\<close>, five digits,
  \<open>API Key\<close>, one or more letters or digits, at the end of the string.\<close>

definition matches_pattern :: "string \<Rightarrow> string \<Rightarrow> string \<Rightarrow> bool" where
  "matches_pattern s d k \<longleftrightarrow>
     (\<exists>pre. s = pre @ ''Store ID '' @ d @ '' API Key '' @ k)
     \<and> length d = 5 \<and> list_all is_digit d \<and> k \<noteq> [] \<and> list_all is_alnum k"

section \<open>Built-in conversions\<close>

text \<open>
  How the runtime prints a number, how it prints an array (the elements joined, each
  converted in turn, which may throw), which number it reads from a number literal of a
  JSON text, how it serialises a value (\<^verbatim>\<open>JSON.stringify\<close>), and what the vendor
  answers to a request are not decided by \<^verbatim>\<open>DataStore.js\<close>: they are parameters, and
  every theorem holds for all of them. The answer of the vendor is the outcome of
  \<^verbatim>\<open>fetch\<close> followed by \<^verbatim>\<open>response.json()\<close>: a rejection or the JSON text of the
  body, as a tree whose number literals have their exact value.
\<close>

datatype json =
    JsonNull
  | JsonBool bool
  | JsonNum rat
  | JsonStr string
  | JsonArr "json list"
  | JsonObj "(string \<times> json) list"

record request =
  req_url :: string
  req_body :: jsval
  req_headers :: "(string \<times> jsval) list"
  req_method :: string

record runtime =
  number_to_string :: "jsnum \<Rightarrow> string"
  array_to_string :: "store \<Rightarrow> nat \<Rightarrow> error + string"
  read_number :: "rat \<Rightarrow> jsnum"
  json_stringify :: "store \<Rightarrow> jsval \<Rightarrow> error + jsval"
  server :: "request \<Rightarrow> error + json"

fun to_string :: "runtime \<Rightarrow> store \<Rightarrow> jsval \<Rightarrow> error + string" where
  \<comment> \<open>The conversion of a template literal and of \<^verbatim>\<open>join\<close>. A plain object prints
      through \<^verbatim>\<open>Object.prototype.toString\<close>; when it has a \<^verbatim>\<open>toString\<close> property of
      its own, which is data and cannot be called, the conversion throws.\<close>
  "to_string rt h JUndefined = Inr ''undefined''"
| "to_string rt h JNull = Inr ''null''"
| "to_string rt h (JBool b) = Inr (if b then ''true'' else ''false'')"
| "to_string rt h (JNum n) = Inr (number_to_string rt n)"
| "to_string rt h (JStr s) = Inr s"
| "to_string rt h (JRef a) =
     (case cell_at h a of
        Obj fs \<Rightarrow>
          if map_of fs ''toString'' = None then Inr ''[object Object]'' else Inl TypeError
      | Arr xs \<Rightarrow> array_to_string rt h a)"

fun join_strings :: "string \<Rightarrow> string list \<Rightarrow> string" where
  "join_strings sep [] = []"
| "join_strings sep [x] = x"
| "join_strings sep (x # y # ys) = x @ sep @ join_strings sep (y # ys)"

fun element_strings :: "runtime \<Rightarrow> store \<Rightarrow> jsval list \<Rightarrow> error + string list" where
  \<comment> \<open>The elements converted from left to right; \<^verbatim>\<open>undefined\<close> and \<^verbatim>\<open>null\<close> print as
      the empty string, and the first conversion that throws ends it.\<close>
  "element_strings rt h [] = Inr []"
| "element_strings rt h (v # vs) =
     bindE (if v = JUndefined \<or> v = JNull then Inr [] else to_string rt h v)
       (\<lambda>s. bindE (element_strings rt h vs) (\<lambda>ss. Inr (s # ss)))"

definition array_join :: "runtime \<Rightarrow> store \<Rightarrow> string \<Rightarrow> jsval list \<Rightarrow> error + string" where
  \<comment> \<open>\<^verbatim>\<open>xs.join(sep)\<close>\<close>
  "array_join rt h sep xs =
     bindE (element_strings rt h xs) (\<lambda>ss. Inr (join_strings sep ss))"

definition array_elems :: "store \<Rightarrow> jsval \<Rightarrow> error + jsval list" where
  \<comment> \<open>The receiver of an array method (\<^verbatim>\<open>join\<close>, \<^verbatim>\<open>filter\<close>): only an array has it.\<close>
  "array_elems h v =
     (case v of
        JRef a \<Rightarrow> (case cell_at h a of Arr xs \<Rightarrow> Inr xs | Obj fs \<Rightarrow> Inl TypeError)
      | _ \<Rightarrow> Inl TypeError)"

definition new_Error :: "store \<Rightarrow> string \<Rightarrow> jsval \<Rightarrow> error" where
  \<comment> \<open>\<^verbatim>\<open>new Error(message, options)\<close>: the second argument only counts when it is an
      object with a \<^verbatim>\<open>cause\<close> property.\<close>
  "new_Error h msg options =
     Error msg (case options of JRef a \<Rightarrow> map_of (own_props (cell_at h a)) ''cause'' | _ \<Rightarrow> None)"

subsection \<open>Query strings\<close>

definition hex_digit :: "nat \<Rightarrow> char" where
  "hex_digit n = ''0123456789ABCDEF'' ! (n mod 16)"

definition percent :: "nat \<Rightarrow> string" where
  "percent b = [CHR ''%'', hex_digit (b div 16), hex_digit b]"

definition form_encode_char :: "char \<Rightarrow> string" where
  \<comment> \<open>The serialiser of \<^verbatim>\<open>URLSearchParams\<close>: letters, digits and \<^verbatim>\<open>*-._\<close> stay, a space
      is a plus sign, every other code unit is the percent-encoded bytes of its UTF-8
      form (two bytes from 128 on).\<close>
  "form_encode_char c =
     (let n = (of_char c :: nat)
      in if is_alnum c \<or> c \<in> set ''*-._'' then [c]
         else if c = CHR '' '' then ''+''
         else if n < 128 then percent n
         else percent (192 + n div 64) @ percent (128 + n mod 64))"

definition form_encode :: "string \<Rightarrow> string" where
  "form_encode s = concat (map form_encode_char s)"

definition url_search_params :: "(string \<times> string) list \<Rightarrow> string" where
  \<comment> \<open>\<^verbatim>\<open>new URLSearchParams({...})\<close> converted to a string.\<close>
  "url_search_params ps =
     join_strings ''&'' (map (\<lambda>(k, v). form_encode k @ ''='' @ form_encode v) ps)"

section \<open>Requests\<close>

record world =
  store_w :: store
  sent :: "request list"

definition decimal_value :: "string \<Rightarrow> nat" where
  "decimal_value k = foldl (\<lambda>n c. 10 * n + (of_char c - 48)) 0 k"

definition index_of_key :: "string \<Rightarrow> nat option" where
  \<comment> \<open>The array index that a property name stands for: a decimal numeral without a
      leading zero, below \<open>2^32 - 1\<close>.\<close>
  "index_of_key k =
     (if k \<noteq> [] \<and> list_all is_digit k \<and> (k = ''0'' \<or> hd k \<noteq> CHR ''0'')
         \<and> decimal_value k < 4294967295
      then Some (decimal_value k) else None)"

fun place_index :: "nat \<Rightarrow> string \<Rightarrow> jsval \<Rightarrow> (string \<times> jsval) list \<Rightarrow> (string \<times> jsval) list"
  where
  "place_index i k v [] = [(k, v)]"
| "place_index i k v (p # ps) =
     (case index_of_key (fst p) of
        Some j \<Rightarrow> if j < i then p # place_index i k v ps else (k, v) # p # ps
      | None \<Rightarrow> (k, v) # p # ps)"

definition insert_prop :: "string \<Rightarrow> jsval \<Rightarrow> (string \<times> jsval) list \<Rightarrow> (string \<times> jsval) list"
  where
  \<comment> \<open>A property defined on an object: one that is there keeps its place; a new one goes
      among the index names in ascending order when its name is an index, and to the end
      otherwise.\<close>
  "insert_prop k v fs =
     (if map_of fs k \<noteq> None then AList.update k v fs
      else case index_of_key k of None \<Rightarrow> fs @ [(k, v)] | Some i \<Rightarrow> place_index i k v fs)"

fun from_json :: "runtime \<Rightarrow> json \<Rightarrow> store \<Rightarrow> jsval \<times> store"
  and from_json_list :: "runtime \<Rightarrow> json list \<Rightarrow> store \<Rightarrow> jsval list \<times> store"
  and from_json_fields ::
    "runtime \<Rightarrow> (string \<times> json) list \<Rightarrow> (string \<times> jsval) list \<Rightarrow> store
       \<Rightarrow> (string \<times> jsval) list \<times> store"
  where
  \<comment> \<open>What \<^verbatim>\<open>response.json()\<close> builds: new objects and arrays in the store. A name that
      occurs twice keeps its first place and its last value.\<close>
  "from_json rt JsonNull h = (JNull, h)"
| "from_json rt (JsonBool b) h = (JBool b, h)"
| "from_json rt (JsonNum q) h = (JNum (read_number rt q), h)"
| "from_json rt (JsonStr s) h = (JStr s, h)"
| "from_json rt (JsonArr js) h =
     (let (vs, h') = from_json_list rt js h; (a, h'') = alloc h' (Arr vs) in (JRef a, h''))"
| "from_json rt (JsonObj fs) h =
     (let (ps, h') = from_json_fields rt fs [] h; (a, h'') = alloc h' (Obj ps)
      in (JRef a, h''))"
| "from_json_list rt [] h = ([], h)"
| "from_json_list rt (j # js) h =
     (let (v, h') = from_json rt j h; (vs, h'') = from_json_list rt js h' in (v # vs, h''))"
| "from_json_fields rt [] acc h = (acc, h)"
| "from_json_fields rt ((k, j) # fs) acc h =
     (let (v, h') = from_json rt j h in from_json_fields rt fs (insert_prop k v acc) h')"

definition fetch_json :: "runtime \<Rightarrow> world \<Rightarrow> request \<Rightarrow> (error + jsval) \<times> world" where
  \<comment> \<open>\<^verbatim>\<open>await fetch(url, options)\<close> and then \<^verbatim>\<open>await response.json()\<close>.\<close>
  "fetch_json rt w req =
     (let w' = w\<lparr>sent := sent w @ [req]\<rparr>
      in case server rt req of
           Inl e \<Rightarrow> (Inl e, w')
         | Inr j \<Rightarrow> (let (v, h') = from_json rt j (store_w w') in (Inr v, w'\<lparr>store_w := h'\<rparr>)))"

definition getDefaultHeader :: "datastore \<Rightarrow> error + (string \<times> jsval) list" where
  "getDefaultHeader this =
     (case credentials this of
        None \<Rightarrow> Inl TypeError
      | Some c \<Rightarrow>
          Inr [(''Content-Type'', JStr ''application/json''),
               (''ORDERDESK-API-KEY'', key_cred c),
               (''ORDERDESK-STORE-ID'', id_cred c)])"

definition buildEndpoint :: "datastore \<Rightarrow> string \<Rightarrow> string" where
  "buildEndpoint this path = ''https://'' @ domain this @ ''/'' @ api this @ path"

section \<open>Inventory\<close>

definition js_and :: "error + jsval \<Rightarrow> error + jsval \<Rightarrow> error + jsval" where
  \<comment> \<open>\<^verbatim>\<open>a && b\<close>\<close>
  "js_and a b = bindE a (\<lambda>x. if truthy x then b else Inr x)"

definition js_or :: "error + jsval \<Rightarrow> error + jsval \<Rightarrow> error + jsval" where
  \<comment> \<open>\<^verbatim>\<open>a || b\<close>\<close>
  "js_or a b = bindE a (\<lambda>x. if truthy x then Inr x else b)"

definition js_not :: "error + jsval \<Rightarrow> error + jsval" where
  \<comment> \<open>\<^verbatim>\<open>!a\<close>\<close>
  "js_not a = bindE a (\<lambda>x. Inr (JBool (\<not> truthy x)))"

definition is_zero :: "error + jsval \<Rightarrow> error + jsval" where
  \<comment> \<open>\<^verbatim>\<open>a === 0\<close>\<close>
  "is_zero a = bindE a (\<lambda>x. Inr (JBool (x = JNum (Fin 0))))"

definition validateInventoryItem :: "store \<Rightarrow> jsval \<Rightarrow> error + jsval" where
  "validateInventoryItem h item =
     js_not (js_not
       (js_and
          (js_and
             (js_and
                (js_and (get_prop h item ''id'') (get_prop h item ''name''))
                (get_prop h item ''code''))
             (js_or (get_prop h item ''price'') (is_zero (get_prop h item ''price''))))
          (js_or (get_prop h item ''stock'') (is_zero (get_prop h item ''stock'')))))"

definition convertToCanonical :: "store \<Rightarrow> jsval \<Rightarrow> error + jsval \<times> store" where
  "convertToCanonical h orderDeskItem =
     (let copied = spread h orderDeskItem;
          tagged = AList.update ''update_source'' (JStr ''Foxy-Orderdesk-Webhook'') copied
      in bindE (get_prop h orderDeskItem ''stock'')
           (\<lambda>stock. let (a, h') = alloc h (Obj (AList.update ''inventory'' stock tagged))
                     in Inr (JRef a, h')))"

fun filterE :: "('a \<Rightarrow> error + jsval) \<Rightarrow> 'a list \<Rightarrow> error + 'a list" where
  \<comment> \<open>\<^verbatim>\<open>xs.filter(p)\<close> for a callback that may throw.\<close>
  "filterE p [] = Inr []"
| "filterE p (x # xs) =
     bindE (p x) (\<lambda>b. bindE (filterE p xs) (\<lambda>ys. Inr (if truthy b then x # ys else ys)))"

definition fetchInventoryItems ::
  "runtime \<Rightarrow> datastore \<Rightarrow> world \<Rightarrow> jsval \<Rightarrow> (error + jsval) \<times> world" where
  "fetchInventoryItems rt this w items =
     (case bindE (array_elems (store_w w) items) (array_join rt (store_w w) '','') of
        Inl e \<Rightarrow> (Inl e, w)
      | Inr joined \<Rightarrow>
          (case getDefaultHeader this of
             Inl e \<Rightarrow> (Inl e, w)
           | Inr hdr \<Rightarrow>
               (case fetch_json rt w
                       \<lparr>req_url = buildEndpoint this ''inventory-items'' @ ''?''
                              @ url_search_params [(''code'', joined)],
                        req_body = JUndefined, req_headers = hdr, req_method = ''GET''\<rparr> of
                  (Inl e, w') \<Rightarrow> (Inl e, w')
                | (Inr response, w') \<Rightarrow>
                    (get_prop (store_w w') response ''inventory_items'', w'))))"

definition updateInventoryItems ::
  "runtime \<Rightarrow> datastore \<Rightarrow> world \<Rightarrow> jsval \<Rightarrow> (error + jsval) \<times> world" where
  "updateInventoryItems rt this w items =
     (let h = store_w w
      in case bindE (array_elems h items)
                (filterE (\<lambda>i. js_not (validateInventoryItem h i))) of
           Inl e \<Rightarrow> (Inl e, w)
         | Inr invalid \<Rightarrow>
             if length invalid \<noteq> 0
             then (case array_join rt h '','' invalid of
                     Inl e \<Rightarrow> (Inl e, w)
                   | Inr joined \<Rightarrow>
                       (Inl (new_Error h ''Invalid inventory items for update''
                               (JStr joined)), w))
             else (case json_stringify rt h items of
                     Inl e \<Rightarrow> (Inl e, w)
                   | Inr b \<Rightarrow>
                       (case getDefaultHeader this of
                          Inl e \<Rightarrow> (Inl e, w)
                        | Inr hdr \<Rightarrow>
                            fetch_json rt w
                              \<lparr>req_url = buildEndpoint this ''batch-inventory-items'',
                               req_body = b, req_headers = hdr, req_method = ''PUT''\<rparr>)))"

section \<open>Orders\<close>

definition embedded :: "store \<Rightarrow> jsval \<Rightarrow> string \<Rightarrow> error + jsval" where
  \<comment> \<open>\<^verbatim>\<open>body._embedded[k]\<close>\<close>
  "embedded h body k = bindE (get_prop h body ''_embedded'') (\<lambda>e. get_prop h e k)"

definition first_or_empty :: "store \<Rightarrow> jsval \<Rightarrow> string \<Rightarrow> error + jsval \<times> store" where
  \<comment> \<open>\<^verbatim>\<open>body._embedded[k] ? body._embedded[k][0] : {}\<close>\<close>
  "first_or_empty h body k =
     bindE (embedded h body k)
       (\<lambda>c. if truthy c
             then bindE (embedded h body k) (\<lambda>xs. bindE (get_index h xs 0) (\<lambda>v. Inr (v, h)))
             else (let (a, h') = alloc h (Obj []) in Inr (JRef a, h')))"

definition set_prop :: "store \<Rightarrow> nat \<Rightarrow> string \<Rightarrow> jsval \<Rightarrow> store" where
  \<comment> \<open>\<^verbatim>\<open>o.k = v\<close> on an object, for a name \<open>k\<close> that is not an array index, as every
      name assigned in \<^verbatim>\<open>DataStore.js\<close>: a property that is there keeps its place, a
      new one goes to the end.\<close>
  "set_prop h a k v =
     (case cell_at h a of Obj fs \<Rightarrow> h[a := Obj (AList.update k v fs)] | Arr xs \<Rightarrow> h)"

definition delete_prop :: "store \<Rightarrow> nat \<Rightarrow> string \<Rightarrow> store" where
  \<comment> \<open>\<^verbatim>\<open>delete o.k\<close> on an object.\<close>
  "delete_prop h a k =
     (case cell_at h a of Obj fs \<Rightarrow> h[a := Obj (AList.delete k fs)] | Arr xs \<Rightarrow> h)"

definition assign :: "nat \<Rightarrow> string \<Rightarrow> (store \<Rightarrow> error + jsval) \<Rightarrow> store \<Rightarrow> error + store" where
  \<comment> \<open>The statement \<^verbatim>\<open>o.k = rhs;\<close>\<close>
  "assign a k rhs h = bindE (rhs h) (\<lambda>v. Inr (set_prop h a k v))"

fun run :: "(store \<Rightarrow> error + store) list \<Rightarrow> store \<Rightarrow> error + store" where
  \<comment> \<open>Statements one after the other; the first that throws ends the run.\<close>
  "run [] h = Inr h"
| "run (s # ss) h = bindE (s h) (run ss)"

definition order_fields ::
  "runtime \<Rightarrow> jsval \<Rightarrow> jsval \<Rightarrow> jsval \<Rightarrow> jsval \<Rightarrow> nat \<Rightarrow> nat \<Rightarrow> nat
     \<Rightarrow> (store \<Rightarrow> error + store) list" where
  \<comment> \<open>The statements \<^verbatim>\<open>order.id = body.id;\<close> to \<^verbatim>\<open>order.order_items = fxItems;\<close>\<close>
  "order_fields rt body fxCustomer fxPayment fxItems customer shipping order =
     [assign order ''id'' (\<lambda>h. get_prop h body ''id''),
      assign order ''email'' (\<lambda>h. get_prop h body ''customer_email''),
      assign order ''customer'' (\<lambda>h. Inr (JRef customer)),
      assign order ''shipping'' (\<lambda>h. Inr (JRef shipping)),
      assign order ''source_name'' (\<lambda>h. Inr (JStr ''Foxy.io'')),
      assign order ''customer_id'' (\<lambda>h. get_prop h fxCustomer ''id''),
      assign order ''product_total'' (\<lambda>h. get_prop h body ''total_item_price''),
      assign order ''shipping_total'' (\<lambda>h. get_prop h body ''total_shipping''),
      assign order ''tax_total'' (\<lambda>h. get_prop h body ''total_tax''),
      assign order ''discount_total'' (\<lambda>h. get_prop h body ''total_discount''),
      assign order ''order_total'' (\<lambda>h. get_prop h body ''total_order''),
      assign order ''cc_number_masked'' (\<lambda>h. get_prop h fxPayment ''cc_number_masked''),
      assign order ''cc_exp''
        (\<lambda>h. bindE (get_prop h fxPayment ''cc_exp_month'') (\<lambda>m.
              bindE (to_string rt h m) (\<lambda>month.
              bindE (get_prop h fxPayment ''cc_exp_year'') (\<lambda>y.
              bindE (to_string rt h y) (\<lambda>year.
                Inr (JStr (month @ ''/'' @ year))))))),
      assign order ''processor_response'' (\<lambda>h. get_prop h fxPayment ''processor_response''),
      assign order ''payment_sattus'' (\<lambda>h. get_prop h (JRef order) ''status''),
      assign order ''payment_type'' (\<lambda>h. get_prop h fxPayment ''cc_type''),
      assign order ''order_items'' (\<lambda>h. Inr fxItems)]"

definition build_order :: "runtime \<Rightarrow> store \<Rightarrow> jsval \<Rightarrow> error + jsval \<times> store" where
  \<comment> \<open>\<^verbatim>\<open>createOrder\<close> up to the request: the object \<^verbatim>\<open>order\<close> and the store it is in.\<close>
  "build_order rt h body =
     bindE (embedded h body ''fx:customer'') (\<lambda>fxCustomer.
     bindE (first_or_empty h body ''fx:shipments'') (\<lambda>(fxShipment, h1).
     bindE (first_or_empty h1 body ''fx:payments'') (\<lambda>(fxPayment, h2).
     bindE (embedded h2 body ''fx:items'') (\<lambda>fxItems.
     bindE (get_prop h2 fxCustomer ''first_name'') (\<lambda>first_name.
     bindE (get_prop h2 fxCustomer ''last_name'') (\<lambda>last_name.
       let (customer, h3) =
             alloc h2 (Obj [(''first_name'', first_name), (''last_name'', last_name)]);
           (shipping, h4) = alloc h3 (Obj (spread h3 fxShipment));
           h5 = delete_prop h4 shipping ''_links'';
           (order, h6) = alloc h5 (Obj [])
       in bindE
            (run (order_fields rt body fxCustomer fxPayment fxItems customer shipping order)
               h6)
            (\<lambda>h7. Inr (JRef order, h7))))))))"

definition createOrder ::
  "runtime \<Rightarrow> datastore \<Rightarrow> world \<Rightarrow> jsval \<Rightarrow> (error + jsval) \<times> world" where
  \<comment> \<open>When the mapping throws, the objects it had made are unreachable and the world is
      returned as it was.\<close>
  "createOrder rt this w body =
     (case build_order rt (store_w w) body of
        Inl e \<Rightarrow> (Inl e, w)
      | Inr (order, h) \<Rightarrow>
          (let w' = w\<lparr>store_w := h\<rparr>
           in case json_stringify rt h order of
                Inl e \<Rightarrow> (Inl e, w')
              | Inr b \<Rightarrow>
                  (case getDefaultHeader this of
                     Inl e \<Rightarrow> (Inl e, w')
                   | Inr hdr \<Rightarrow>
                       fetch_json rt w'
                         \<lparr>req_url = buildEndpoint this ''orders'', req_body = b, req_headers = hdr,
                          req_method = ''POST''\<rparr>)))"

section \<open>The rule for a valid item in the words of the specification\<close>

definition is_number :: "jsval \<Rightarrow> bool" where
  "is_number v = (case v of JNum n \<Rightarrow> True | _ \<Rightarrow> False)"

definition spec_valid_item :: "(string \<times> jsval) list \<Rightarrow> bool" where
  \<comment> \<open>A non-empty id, name and code (a value that is there and not empty: a truthy one),
      a price that is a number or exactly 0, a stock that is a number or exactly 0.\<close>
  "spec_valid_item fs \<longleftrightarrow>
     truthy (lookup fs ''id'') \<and> truthy (lookup fs ''name'') \<and> truthy (lookup fs ''code'')
     \<and> (is_number (lookup fs ''price'') \<or> lookup fs ''price'' = JNum (Fin 0))
     \<and> (is_number (lookup fs ''stock'') \<or> lookup fs ''stock'' = JNum (Fin 0))"

section \<open>Values for the examples\<close>

definition example_runtime :: runtime where
  \<comment> \<open>A runtime whose vendor answers every request with the body \<^verbatim>\<open>{}\<close>.\<close>
  "example_runtime =
     \<lparr>number_to_string = (\<lambda>n. ''0''),
      array_to_string = (\<lambda>h a. Inr []),
      read_number = Fin,
      json_stringify = (\<lambda>h v. Inr (JStr ''{}'')),
      server = (\<lambda>r. Inr (JsonObj []))\<rparr>"

definition example_adapter :: datastore where
  \<comment> \<open>The adapter that the constructor returns for the credentials \<open>12345\<close> and \<open>abcDEF9\<close>.\<close>
  "example_adapter =
     \<lparr>domain = ''app.orderdesk.me'', api = ''api/v2/'',
      credentials = Some \<lparr>id_cred = JStr ''12345'', key_cred = JStr ''abcDEF9''\<rparr>\<rparr>"

definition example_order_store :: store where
  \<comment> \<open>An order payload at address 0 with a customer and one shipment, at address 4, that
      has link metadata.\<close>
  "example_order_store =
     [Obj [(''id'', JNum (Fin 7)), (''_embedded'', JRef 1)],
      Obj [(''fx:customer'', JRef 2), (''fx:shipments'', JRef 3)],
      Obj [(''first_name'', JStr ''Ann''), (''last_name'', JStr ''Lee'')],
      Arr [JRef 4],
      Obj [(''_links'', JRef 5), (''city'', JStr ''Paris'')],
      Obj [(''self'', JStr ''https://api.foxy.test/shipments/1'')]]"

definition example_bare_order_store :: store where
  \<comment> \<open>An order payload at address 0 with a customer and items, without shipments and
      without payments.\<close>
  "example_bare_order_store =
     [Obj [(''id'', JNum (Fin 7)), (''customer_email'', JStr ''ann@example.org''),
           (''_embedded'', JRef 1)],
      Obj [(''fx:customer'', JRef 2), (''fx:items'', JRef 3)],
      Obj [(''first_name'', JStr ''Ann''), (''last_name'', JStr ''Lee''),
           (''id'', JNum (Fin 9))],
      Arr []]"

section \<open>Properties of the credential resolver\<close>

lemma not_alnum_space: "\<not> is_alnum (CHR '' '')"
  by (simp add: is_alnum_def)

lemma drop_in_front: "n \<le> length A \<Longrightarrow> drop n (A @ B) = drop n A @ B"
  by simp

lemma match_here_later:
  assumes "length d = 5" "pre \<noteq> []"
  shows "match_here (pre @ ''Store ID '' @ d @ '' API Key '' @ k) = None"
proof -
  define A where "A = pre @ ''Store ID '' @ d @ '' API Key''"
  have len: "23 \<le> length A"
    using assms by (cases pre) (simp_all add: A_def)
  have split: "pre @ ''Store ID '' @ d @ '' API Key '' @ k = A @ CHR '' '' # k"
    by (simp add: A_def)
  have "drop 23 (A @ CHR '' '' # k) = drop 23 A @ CHR '' '' # k"
    using len by (rule drop_in_front)
  then have "CHR '' '' \<in> set (drop 23 (pre @ ''Store ID '' @ d @ '' API Key '' @ k))"
    unfolding split by simp
  then have "\<not> list_all is_alnum (drop 23 (pre @ ''Store ID '' @ d @ '' API Key '' @ k))"
    using not_alnum_space by (auto simp: list_all_iff)
  then show ?thesis
    unfolding match_here_def Let_def by (simp only: simp_thms if_False)
qed

lemma match_here_exact:
  assumes "length d = 5" "list_all is_digit d" "k \<noteq> []" "list_all is_alnum k"
  shows "match_here (''Store ID '' @ d @ '' API Key '' @ k)
           = Some [''Store ID '' @ d @ '' API Key '' @ k, d, k]"
  using assms by (simp add: match_here_def)

lemma regex_match_Cons:
  "regex_match (c # cs) =
     (case match_here (c # cs) of Some m \<Rightarrow> Some m | None \<Rightarrow> regex_match cs)"
  by (subst regex_match.simps) (simp split: option.split)

lemma regex_match_hit: "match_here s = Some m \<Longrightarrow> regex_match s = Some m"
  by (subst regex_match.simps) simp

lemma regex_match_complete:
  assumes "length d = 5" "list_all is_digit d" "k \<noteq> []" "list_all is_alnum k"
  shows "regex_match (pre @ ''Store ID '' @ d @ '' API Key '' @ k)
           = Some [''Store ID '' @ d @ '' API Key '' @ k, d, k]"
proof (induction pre)
  case Nil
  have "regex_match (''Store ID '' @ d @ '' API Key '' @ k)
          = Some [''Store ID '' @ d @ '' API Key '' @ k, d, k]"
    by (rule regex_match_hit) (rule match_here_exact [OF assms])
  then show ?case by (simp only: append_Nil)
next
  case (Cons c pre)
  define t where "t = ''Store ID '' @ d @ '' API Key '' @ k"
  have "match_here ((c # pre) @ t) = None"
    unfolding t_def by (rule match_here_later [OF assms(1)]) simp
  then have "regex_match ((c # pre) @ t) = regex_match (pre @ t)"
    by (simp add: regex_match_Cons)
  then show ?case
    using Cons.IH unfolding t_def by simp
qed

lemma take_drop_split: "drop n s = take m (drop n s) @ drop (n + m) s"
  by (metis append_take_drop_id drop_drop add.commute)

lemma match_here_sound:
  assumes "match_here s = Some m"
  shows "\<exists>d k. m = [s, d, k] \<and> matches_pattern s d k"
proof -
  define d where "d = take 5 (drop 9 s)"
  define k where "k = drop 23 s"
  from assms have c: "take 9 s = ''Store ID ''" "length d = 5" "list_all is_digit d"
    "take 9 (drop 14 s) = '' API Key ''" "k \<noteq> []" "list_all is_alnum k" "m = [s, d, k]"
    unfolding match_here_def Let_def d_def k_def by (simp_all split: if_splits)
  have "s = take 9 s @ drop 9 s" by simp
  also have "drop 9 s = d @ drop 14 s"
    using take_drop_split [of 9 s 5] by (simp add: d_def)
  also have "drop 14 s = take 9 (drop 14 s) @ k"
    using take_drop_split [of 14 s 9] by (simp add: k_def)
  finally have "s = [] @ ''Store ID '' @ d @ '' API Key '' @ k"
    using c(1,4) by simp
  then show ?thesis
    using c unfolding matches_pattern_def by blast
qed

lemma matches_pattern_Cons: "matches_pattern cs d k \<Longrightarrow> matches_pattern (c # cs) d k"
proof -
  assume p: "matches_pattern cs d k"
  then obtain pre where "cs = pre @ ''Store ID '' @ d @ '' API Key '' @ k"
    unfolding matches_pattern_def by blast
  then have "c # cs = (c # pre) @ ''Store ID '' @ d @ '' API Key '' @ k" by simp
  then show ?thesis
    using p unfolding matches_pattern_def by blast
qed

lemma regex_match_sound:
  "regex_match s = Some m \<Longrightarrow> \<exists>x d k. m = [x, d, k] \<and> matches_pattern s d k"
proof (induction s)
  case Nil
  then have "match_here [] = Some m"
    by (subst (asm) regex_match.simps) (simp split: option.splits)
  then show ?case using match_here_sound by blast
next
  case (Cons c cs)
  show ?case
  proof (cases "match_here (c # cs)")
    case (Some m')
    with Cons.prems have "m' = m" by (simp add: regex_match_Cons)
    with Some show ?thesis using match_here_sound by blast
  next
    case None
    with Cons.prems have "regex_match cs = Some m" by (simp add: regex_match_Cons)
    then obtain x d k where m: "m = [x, d, k]" and p: "matches_pattern cs d k"
      using Cons.IH by blast
    with matches_pattern_Cons show ?thesis by blast
  qed
qed

lemma regex_match_matches:
  "matches_pattern s d k \<Longrightarrow> \<exists>x. regex_match s = Some [x, d, k]"
  unfolding matches_pattern_def using regex_match_complete by blast

lemma regex_match_None:
  "(\<forall>d k. \<not> matches_pattern s d k) \<Longrightarrow> regex_match s = None"
  using regex_match_sound by (cases "regex_match s") blast+

lemma matches_pattern_truthy: "matches_pattern s d k \<Longrightarrow> truthy (JStr s)"
  by (auto simp: matches_pattern_def)

lemma regex_match_refutes: "regex_match s = None \<Longrightarrow> \<not> matches_pattern s d k"
  using regex_match_matches by fastforce

lemma parse_combined:
  assumes "credentials_cfg cfg = JStr s" "matches_pattern s d k"
  shows "parseConfigCredentials cfg = Inr \<lparr>id_cred = JStr d, key_cred = JStr k\<rparr>"
proof -
  obtain x where "regex_match s = Some [x, d, k]"
    using regex_match_matches [OF assms(2)] by blast
  then show ?thesis
    using assms matches_pattern_truthy [OF assms(2)]
    by (simp add: parseConfigCredentials_def string_match_def bindE_def)
qed

lemma parse_discrete:
  assumes "credentials_cfg cfg = JUndefined
           \<or> (credentials_cfg cfg = JStr s \<and> (\<forall>d k. \<not> matches_pattern s d k))"
  shows "parseConfigCredentials cfg = Inr \<lparr>id_cred = storeId cfg, key_cred = apiKey cfg\<rparr>"
  using assms regex_match_None [of s]
  by (auto simp: parseConfigCredentials_def string_match_def bindE_def)

lemma example_no_match: "regex_match ''Store ID 1234 API Key abcDEF9'' = None"
  by code_simp

lemma matches_patternI:
  "s = pre @ ''Store ID '' @ d @ '' API Key '' @ k \<Longrightarrow> length d = 5 \<Longrightarrow> list_all is_digit d
     \<Longrightarrow> k \<noteq> [] \<Longrightarrow> list_all is_alnum k \<Longrightarrow> matches_pattern s d k"
  unfolding matches_pattern_def by blast

lemma example_matches:
  "matches_pattern ''orderdesk: Store ID 12345 API Key abcDEF9'' ''12345'' ''abcDEF9''"
  by (rule matches_patternI [where pre = "''orderdesk: ''"])
     (simp_all add: is_digit_def is_alnum_def)

lemma constructor_succeeds:
  assumes "parseConfigCredentials cfg = Inr c" "truthy (id_cred c)" "truthy (key_cred c)"
  shows "constructor cfg
           = Inr \<lparr>domain = ''app.orderdesk.me'', api = ''api/v2/'', credentials = Some c\<rparr>"
  using assms by (simp add: constructor_def setCredentials_def bindE_def)

text \<open>
  Claim C1. When the combined credentials string of the configuration matches the pattern
  (\<open>Store ID\<close>, five digits, \<open>API Key\<close>, letters and digits up to the end of the
  string), \<open>parseConfigCredentials\<close> returns the two captured groups as id and key.
  When the combined string is absent, or is a string that the pattern does not match,
  it returns the discrete fields \<open>storeId\<close> and \<open>apiKey\<close>.
\<close>

theorem parseConfigCredentials_combined_or_discrete:
  "(credentials_cfg cfg = JStr s \<and> matches_pattern s d k \<longrightarrow>
      parseConfigCredentials cfg = Inr \<lparr>id_cred = JStr d, key_cred = JStr k\<rparr>)
   \<and> (credentials_cfg cfg = JUndefined
        \<or> (credentials_cfg cfg = JStr s \<and> (\<forall>d k. \<not> matches_pattern s d k)) \<longrightarrow>
      parseConfigCredentials cfg = Inr \<lparr>id_cred = storeId cfg, key_cred = apiKey cfg\<rparr>)"
  using parse_combined parse_discrete by blast

theorem parseConfigCredentials_combined_or_discrete_witness:
  "matches_pattern ''orderdesk: Store ID 12345 API Key abcDEF9'' ''12345'' ''abcDEF9''
   \<and> parseConfigCredentials
        \<lparr>credentials_cfg = JStr ''orderdesk: Store ID 12345 API Key abcDEF9'',
         storeId = JStr ''54321'', apiKey = JStr ''other''\<rparr>
       = Inr \<lparr>id_cred = JStr ''12345'', key_cred = JStr ''abcDEF9''\<rparr>
   \<and> (\<forall>d k. \<not> matches_pattern ''Store ID 1234 API Key abcDEF9'' d k)
   \<and> parseConfigCredentials
        \<lparr>credentials_cfg = JStr ''Store ID 1234 API Key abcDEF9'',
         storeId = JStr ''54321'', apiKey = JStr ''other''\<rparr>
       = Inr \<lparr>id_cred = JStr ''54321'', key_cred = JStr ''other''\<rparr>"
proof -
  have no: "\<forall>d k. \<not> matches_pattern ''Store ID 1234 API Key abcDEF9'' d k"
    using regex_match_refutes [OF example_no_match] by blast
  show ?thesis
    using example_matches no
      parseConfigCredentials_combined_or_discrete
        [of "\<lparr>credentials_cfg = JStr ''orderdesk: Store ID 12345 API Key abcDEF9'',
              storeId = JStr ''54321'', apiKey = JStr ''other''\<rparr>"
            "''orderdesk: Store ID 12345 API Key abcDEF9''" "''12345''" "''abcDEF9''"]
      parseConfigCredentials_combined_or_discrete
        [of "\<lparr>credentials_cfg = JStr ''Store ID 1234 API Key abcDEF9'',
              storeId = JStr ''54321'', apiKey = JStr ''other''\<rparr>"
            "''Store ID 1234 API Key abcDEF9''"]
    by simp
qed

text \<open>
  Claim C2. When the combined credentials string is absent or does not match, and the
  discrete fields do not give both a non-empty id and a non-empty key, the constructor
  throws the configuration error: no adapter object is returned.
\<close>

theorem constructor_fails_without_credentials:
  assumes "credentials_cfg cfg = JUndefined
           \<or> (credentials_cfg cfg = JStr s \<and> (\<forall>d k. \<not> matches_pattern s d k))"
    and "\<not> (truthy (storeId cfg) \<and> truthy (apiKey cfg))"
  shows "constructor cfg = Inl missing_credentials"
  using assms(2) parse_discrete [OF assms(1)]
  by (auto simp: constructor_def setCredentials_def bindE_def)

theorem constructor_fails_without_credentials_witness:
  "constructor \<lparr>credentials_cfg = JUndefined, storeId = JStr ''54321'', apiKey = JUndefined\<rparr>
     = Inl (Error ''Environment variables for OrderDesk store id and/or API key are missing.'' None)
   \<and> constructor \<lparr>credentials_cfg = JStr ''Store ID 1234 API Key abcDEF9'',
                   storeId = JStr '''', apiKey = JStr ''other''\<rparr>
     = Inl (Error ''Environment variables for OrderDesk store id and/or API key are missing.'' None)"
proof -
  have no: "\<forall>d k. \<not> matches_pattern ''Store ID 1234 API Key abcDEF9'' d k"
    using regex_match_refutes [OF example_no_match] by blast
  show ?thesis
    using no
      constructor_fails_without_credentials
        [of "\<lparr>credentials_cfg = JUndefined, storeId = JStr ''54321'', apiKey = JUndefined\<rparr>"]
      constructor_fails_without_credentials
        [of "\<lparr>credentials_cfg = JStr ''Store ID 1234 API Key abcDEF9'',
                   storeId = JStr '''', apiKey = JStr ''other''\<rparr>"
            "''Store ID 1234 API Key abcDEF9''"]
    by (simp add: missing_credentials_def)
qed

section \<open>Properties of the inventory operations\<close>

lemma bindE_Inr [simp]: "bindE (Inr x) f = f x"
  by (simp add: bindE_def)

lemma bindE_Inl [simp]: "bindE (Inl e) f = Inl e"
  by (simp add: bindE_def)

lemma bindE_eq_Inr: "bindE m f = Inr y \<longleftrightarrow> (\<exists>x. m = Inr x \<and> f x = Inr y)"
  by (cases m) simp_all

lemma lookup_update: "lookup (AList.update k v fs) k' = (if k' = k then v else lookup fs k')"
  by (simp add: lookup_def update_conv')

lemma lookup_missing: "map_of fs k = None \<Longrightarrow> lookup fs k = JUndefined"
  by (simp add: lookup_def)

lemma validate_object:
  "validateInventoryItem h (JRef a) =
     (let p = lookup (own_props (cell_at h a))
      in Inr (JBool (truthy (p ''id'') \<and> truthy (p ''name'') \<and> truthy (p ''code'')
                     \<and> (truthy (p ''price'') \<or> p ''price'' = JNum (Fin 0))
                     \<and> (truthy (p ''stock'') \<or> p ''stock'' = JNum (Fin 0)))))"
  by (simp add: validateInventoryItem_def js_not_def js_and_def js_or_def is_zero_def Let_def)

lemma number_passes: "truthy (JNum n) \<or> JNum n = JNum (Fin 0) \<longleftrightarrow> n \<noteq> NaN"
  by auto

lemma js_not_result: "(\<exists>e. js_not m = Inl e) \<or> (\<exists>b. js_not m = Inr (JBool b))"
  by (cases m) (simp_all add: js_not_def)

lemma validate_result:
  "(\<exists>e. validateInventoryItem h i = Inl e) \<or> (\<exists>b. validateInventoryItem h i = Inr (JBool b))"
  unfolding validateInventoryItem_def by (rule js_not_result)

lemma not_validate:
  "validateInventoryItem h i \<noteq> Inr (JBool True) \<Longrightarrow>
     (\<exists>e. js_not (validateInventoryItem h i) = Inl e)
     \<or> js_not (validateInventoryItem h i) = Inr (JBool True)"
  using validate_result [of h i] by (auto simp: js_not_def)

lemma filterE_keeps:
  assumes "i \<in> set xs" "(\<exists>e. p i = Inl e) \<or> p i = Inr (JBool True)"
  shows "(\<exists>e. filterE p xs = Inl e) \<or> (\<exists>ys. filterE p xs = Inr ys \<and> ys \<noteq> [])"
  using assms
proof (induction xs)
  case Nil
  then show ?case by simp
next
  case (Cons x xs)
  show ?case
  proof (cases "p x")
    case (Inl e)
    then show ?thesis by simp
  next
    case (Inr b)
    show ?thesis
    proof (cases "filterE p xs")
      case (Inl e)
      with Inr show ?thesis by simp
    next
      case ys: (Inr ys)
      show ?thesis
      proof (cases "i = x")
        case True
        with Cons.prems Inr have "truthy b" by auto
        with Inr ys show ?thesis by simp
      next
        case False
        with Cons.prems have "i \<in> set xs" by simp
        with Cons.IH Cons.prems(2) ys have "ys \<noteq> []" by auto
        with Inr ys show ?thesis by simp
      qed
    qed
  qed
qed

lemma cell_at_in: "a < length h \<Longrightarrow> cell_at h a = h ! a"
  by (simp add: cell_at_def)

lemma cell_at_append_last: "cell_at (h @ [c]) (length h) = c"
  by (simp add: cell_at_def)

lemma convert_object:
  assumes "a < length h" "h ! a = Obj fs"
  shows "convertToCanonical h (JRef a) =
           Inr (JRef (length h),
                h @ [Obj (AList.update ''inventory'' (lookup fs ''stock'')
                           (AList.update ''update_source'' (JStr ''Foxy-Orderdesk-Webhook'')
                              fs))])"
  using assms by (simp add: convertToCanonical_def alloc_def cell_at_in own_props_def)

lemma update_fixed:
  assumes "k \<noteq> k'"
  shows "AList.update k v (AList.update k' v' (AList.update k v (AList.update k' v' fs)))
           = AList.update k v (AList.update k' v' fs)"
proof -
  have "map_of (AList.update k v (AList.update k' v' fs)) k' = Some v'"
    using assms by (simp add: update_conv')
  then have "AList.update k' v' (AList.update k v (AList.update k' v' fs))
               = AList.update k v (AList.update k' v' fs)"
    by (rule update_triv)
  then show ?thesis by simp
qed

text \<open>
  Claim C3, as amended. \<open>validateInventoryItem\<close> returns true exactly when id, name and
  code are truthy and each of price and stock is truthy or exactly 0. For an item whose
  id, name and code are strings and whose price and stock are numbers this means: the
  three strings are non-empty and neither number is NaN. An item without id, name or code
  is rejected, and the boundary item with price 0 and stock 0 is accepted.
\<close>

theorem validateInventoryItem_truthy_or_zero:
  "(let p = lookup (own_props (cell_at h a))
    in validateInventoryItem h (JRef a) =
         Inr (JBool (truthy (p ''id'') \<and> truthy (p ''name'') \<and> truthy (p ''code'')
                     \<and> (truthy (p ''price'') \<or> p ''price'' = JNum (Fin 0))
                     \<and> (truthy (p ''stock'') \<or> p ''stock'' = JNum (Fin 0))))
       \<and> (p ''id'' = JStr i \<and> p ''name'' = JStr n \<and> p ''code'' = JStr c
            \<and> p ''price'' = JNum x \<and> p ''stock'' = JNum y \<longrightarrow>
          validateInventoryItem h (JRef a) =
            Inr (JBool (i \<noteq> [] \<and> n \<noteq> [] \<and> c \<noteq> [] \<and> x \<noteq> NaN \<and> y \<noteq> NaN)))
       \<and> (p ''id'' = JUndefined \<or> p ''name'' = JUndefined \<or> p ''code'' = JUndefined \<longrightarrow>
          validateInventoryItem h (JRef a) = Inr (JBool False)))
   \<and> validateInventoryItem
        [Obj [(''id'', JStr ''1''), (''name'', JStr ''A''), (''code'', JStr ''SKU1''),
              (''price'', JNum (Fin 0)), (''stock'', JNum (Fin 0))]] (JRef 0)
       = Inr (JBool True)"
proof -
  have "validateInventoryItem
        [Obj [(''id'', JStr ''1''), (''name'', JStr ''A''), (''code'', JStr ''SKU1''),
              (''price'', JNum (Fin 0)), (''stock'', JNum (Fin 0))]] (JRef 0)
       = Inr (JBool True)"
    by (simp add: validate_object cell_at_def own_props_def lookup_def)
  then show ?thesis
    by (auto simp: validate_object Let_def)
qed

theorem validateInventoryItem_truthy_or_zero_witness:
  "validateInventoryItem
     [Obj [(''id'', JStr ''7''), (''name'', JStr ''Mug''), (''code'', JStr ''MUG''),
           (''price'', JNum (Fin 12)), (''stock'', JNum NaN)]] (JRef 0) = Inr (JBool False)
   \<and> validateInventoryItem
       [Obj [(''name'', JStr ''Mug''), (''code'', JStr ''MUG''),
             (''price'', JNum (Fin 12)), (''stock'', JNum (Fin 3))]] (JRef 0) = Inr (JBool False)"
  using validateInventoryItem_truthy_or_zero
          [of "[Obj [(''id'', JStr ''7''), (''name'', JStr ''Mug''), (''code'', JStr ''MUG''),
                     (''price'', JNum (Fin 12)), (''stock'', JNum NaN)]]" 0
              "''7''" "''Mug''" "''MUG''" "Fin 12" NaN]
        validateInventoryItem_truthy_or_zero
          [of "[Obj [(''name'', JStr ''Mug''), (''code'', JStr ''MUG''),
                     (''price'', JNum (Fin 12)), (''stock'', JNum (Fin 3))]]" 0]
  by (simp add: cell_at_def own_props_def lookup_def Let_def)

text \<open>
  Claim C3 as stated fails: an item whose price is the string \<open>free\<close>, neither a number
  nor 0, is accepted.
\<close>

theorem validateInventoryItem_number_counterexample:
  "validateInventoryItem
     [Obj [(''id'', JStr ''1''), (''name'', JStr ''A''), (''code'', JStr ''SKU1''),
           (''price'', JStr ''free''), (''stock'', JNum (Fin 0))]] (JRef 0) = Inr (JBool True)
   \<and> \<not> spec_valid_item
         [(''id'', JStr ''1''), (''name'', JStr ''A''), (''code'', JStr ''SKU1''),
          (''price'', JStr ''free''), (''stock'', JNum (Fin 0))]"
  by (simp add: validate_object cell_at_def own_props_def lookup_def spec_valid_item_def
        is_number_def)

text \<open>
  Claim C4. When the array given to \<open>updateInventoryItems\<close> holds an item that
  \<open>validateInventoryItem\<close> does not accept, the call throws and the world is as before:
  no request has been sent.
\<close>

theorem updateInventoryItems_invalid_sends_nothing:
  assumes "array_elems (store_w w) items = Inr xs"
    and "i \<in> set xs"
    and "validateInventoryItem (store_w w) i \<noteq> Inr (JBool True)"
  shows "\<exists>e. updateInventoryItems rt this w items = (Inl e, w)"
proof -
  let ?p = "\<lambda>i. js_not (validateInventoryItem (store_w w) i)"
  have "(\<exists>e. filterE ?p xs = Inl e) \<or> (\<exists>ys. filterE ?p xs = Inr ys \<and> ys \<noteq> [])"
    using filterE_keeps [of i xs ?p] assms(2) not_validate [OF assms(3)] by blast
  then show ?thesis
    using assms(1) by (auto simp: updateInventoryItems_def Let_def split: sum.splits)
qed

theorem updateInventoryItems_invalid_sends_nothing_witness:
  "updateInventoryItems example_runtime example_adapter
     \<lparr>store_w =
        [Obj [(''id'', JStr ''1''), (''name'', JStr ''A''), (''code'', JStr ''SKU1''),
              (''price'', JNum (Fin 0)), (''stock'', JNum (Fin 0))],
         Obj [(''id'', JStr ''2''), (''name'', JStr ''B''), (''price'', JNum (Fin 4))],
         Arr [JRef 0, JRef 1]],
      sent = []\<rparr> (JRef 2)
   = (Inl (Error ''Invalid inventory items for update'' None),
      \<lparr>store_w =
        [Obj [(''id'', JStr ''1''), (''name'', JStr ''A''), (''code'', JStr ''SKU1''),
              (''price'', JNum (Fin 0)), (''stock'', JNum (Fin 0))],
         Obj [(''id'', JStr ''2''), (''name'', JStr ''B''), (''price'', JNum (Fin 4))],
         Arr [JRef 0, JRef 1]],
      sent = []\<rparr>)"
proof -
  define h where "h =
        [Obj [(''id'', JStr ''1''), (''name'', JStr ''A''), (''code'', JStr ''SKU1''),
              (''price'', JNum (Fin 0)), (''stock'', JNum (Fin 0))],
         Obj [(''id'', JStr ''2''), (''name'', JStr ''B''), (''price'', JNum (Fin 4))],
         Arr [JRef 0, JRef 1]]"
  have a: "array_elems (store_w \<lparr>store_w = h, sent = []\<rparr>) (JRef 2) = Inr [JRef 0, JRef 1]"
    by (simp add: h_def array_elems_def cell_at_def)
  have b: "JRef 1 \<in> set [JRef 0, JRef 1]"
    by simp
  have c: "validateInventoryItem (store_w \<lparr>store_w = h, sent = []\<rparr>) (JRef 1) \<noteq> Inr (JBool True)"
    by (simp add: h_def validate_object cell_at_def own_props_def lookup_def)
  show ?thesis
    using updateInventoryItems_invalid_sends_nothing
            [OF a b c, of example_runtime example_adapter]
    unfolding h_def
    by (simp add: updateInventoryItems_def array_elems_def validate_object cell_at_def
          own_props_def lookup_def js_not_def new_Error_def array_join_def)
qed

text \<open>
  Claim C5 fails on the code. With one valid and one invalid item the thrown error is
  \<^verbatim>\<open>Error("Invalid inventory items for update")\<close> and nothing else: the joined list of
  the invalid items is passed as the second argument of the constructor, which only reads
  an options object, so neither the message nor the cause refers to an item.
\<close>

theorem updateInventoryItems_error_names_no_item:
  "updateInventoryItems rt this
     \<lparr>store_w =
        [Obj [(''id'', JStr ''1''), (''name'', JStr ''A''), (''code'', JStr ''SKU1''),
              (''price'', JNum (Fin 0)), (''stock'', JNum (Fin 0))],
         Obj [(''name'', JStr ''B'')],
         Arr [JRef 0, JRef 1]],
      sent = []\<rparr> (JRef 2)
   = (Inl (Error ''Invalid inventory items for update'' None),
      \<lparr>store_w =
        [Obj [(''id'', JStr ''1''), (''name'', JStr ''A''), (''code'', JStr ''SKU1''),
              (''price'', JNum (Fin 0)), (''stock'', JNum (Fin 0))],
         Obj [(''name'', JStr ''B'')],
         Arr [JRef 0, JRef 1]],
      sent = []\<rparr>)"
  by (simp add: updateInventoryItems_def array_elems_def validate_object cell_at_def
        own_props_def lookup_def js_not_def new_Error_def array_join_def)

text \<open>
  Claim C6, as amended. For an item that is an object, \<open>convertToCanonical\<close> adds one new
  object to the store and changes nothing else. The new object has every field of the
  item other than \<open>inventory\<close> and \<open>update_source\<close> unchanged, \<open>inventory\<close> equal to the
  stock of the item and \<open>update_source\<close> equal to the fixed tag. Converting the result
  again gives an object with the same fields.
\<close>

theorem convertToCanonical_projection:
  assumes "a < length h" "h ! a = Obj fs"
  shows "\<exists>fs'. convertToCanonical h (JRef a) = Inr (JRef (length h), h @ [Obj fs'])
           \<and> (\<forall>k. k \<noteq> ''inventory'' \<and> k \<noteq> ''update_source'' \<longrightarrow> map_of fs' k = map_of fs k)
           \<and> map_of fs' ''inventory'' = Some (lookup fs ''stock'')
           \<and> map_of fs' ''update_source'' = Some (JStr ''Foxy-Orderdesk-Webhook'')
           \<and> convertToCanonical (h @ [Obj fs']) (JRef (length h))
               = Inr (JRef (Suc (length h)), h @ [Obj fs', Obj fs'])"
proof -
  define fs' where "fs' = AList.update ''inventory'' (lookup fs ''stock'')
                            (AList.update ''update_source'' (JStr ''Foxy-Orderdesk-Webhook'') fs)"
  have first: "convertToCanonical h (JRef a) = Inr (JRef (length h), h @ [Obj fs'])"
    unfolding fs'_def using assms by (rule convert_object)
  have other: "\<forall>k. k \<noteq> ''inventory'' \<and> k \<noteq> ''update_source'' \<longrightarrow> map_of fs' k = map_of fs k"
    by (simp add: fs'_def update_conv')
  have inv: "map_of fs' ''inventory'' = Some (lookup fs ''stock'')"
    by (simp add: fs'_def update_conv')
  have src: "map_of fs' ''update_source'' = Some (JStr ''Foxy-Orderdesk-Webhook'')"
    by (simp add: fs'_def update_conv')
  have stock: "lookup fs' ''stock'' = lookup fs ''stock''"
    by (simp add: fs'_def lookup_update)
  have again: "AList.update ''inventory'' (lookup fs' ''stock'')
                 (AList.update ''update_source'' (JStr ''Foxy-Orderdesk-Webhook'') fs') = fs'"
    unfolding stock unfolding fs'_def by (rule update_fixed) simp
  have "convertToCanonical (h @ [Obj fs']) (JRef (length h))
          = Inr (JRef (length (h @ [Obj fs'])), (h @ [Obj fs']) @ [Obj fs'])"
    using convert_object [of "length h" "h @ [Obj fs']" fs'] again by simp
  then have second: "convertToCanonical (h @ [Obj fs']) (JRef (length h))
          = Inr (JRef (Suc (length h)), h @ [Obj fs', Obj fs'])"
    by simp
  from first other inv src second show ?thesis by blast
qed

theorem convertToCanonical_projection_witness:
  "convertToCanonical [Obj [(''code'', JStr ''SKU1''), (''stock'', JNum (Fin 3))]] (JRef 0)
     = Inr (JRef 1,
            [Obj [(''code'', JStr ''SKU1''), (''stock'', JNum (Fin 3))],
             Obj [(''code'', JStr ''SKU1''), (''stock'', JNum (Fin 3)),
                  (''update_source'', JStr ''Foxy-Orderdesk-Webhook''),
                  (''inventory'', JNum (Fin 3))]])"
  using convertToCanonical_projection
          [of 0 "[Obj [(''code'', JStr ''SKU1''), (''stock'', JNum (Fin 3))]]"
              "[(''code'', JStr ''SKU1''), (''stock'', JNum (Fin 3))]"]
  by (simp add: convert_object lookup_def)

text \<open>
  Claim C6 as stated fails: the field \<open>inventory\<close> of the item below is 5 and does not
  reach the result unchanged, where it is the stock, 3.
\<close>

theorem convertToCanonical_unchanged_counterexample:
  "convertToCanonical
     [Obj [(''code'', JStr ''SKU1''), (''stock'', JNum (Fin 3)), (''inventory'', JNum (Fin 5))]]
     (JRef 0)
     = Inr (JRef 1,
            [Obj [(''code'', JStr ''SKU1''), (''stock'', JNum (Fin 3)),
                  (''inventory'', JNum (Fin 5))],
             Obj [(''code'', JStr ''SKU1''), (''stock'', JNum (Fin 3)),
                  (''inventory'', JNum (Fin 3)),
                  (''update_source'', JStr ''Foxy-Orderdesk-Webhook'')]])
   \<and> lookup [(''code'', JStr ''SKU1''), (''stock'', JNum (Fin 3)), (''inventory'', JNum (Fin 5))]
         ''inventory''
       \<noteq> lookup [(''code'', JStr ''SKU1''), (''stock'', JNum (Fin 3)),
                 (''inventory'', JNum (Fin 3)),
                 (''update_source'', JStr ''Foxy-Orderdesk-Webhook'')] ''inventory''"
  by (simp add: convert_object lookup_def)

text \<open>
  Claim C10. For an item that already has an \<open>inventory\<close> or an \<open>update_source\<close> field,
  the result holds the stock of the item under \<open>inventory\<close> and the fixed tag under
  \<open>update_source\<close>: a former value that differs is gone, and a field that was there is
  overwritten in its place, not added a second time.
\<close>

theorem convertToCanonical_overwrites:
  assumes "a < length h" "h ! a = Obj fs"
    and "''inventory'' \<in> fst ` set fs \<or> ''update_source'' \<in> fst ` set fs"
  shows "\<exists>fs'. convertToCanonical h (JRef a) = Inr (JRef (length h), h @ [Obj fs'])
           \<and> lookup fs' ''inventory'' = lookup fs ''stock''
           \<and> lookup fs' ''update_source'' = JStr ''Foxy-Orderdesk-Webhook''
           \<and> (lookup fs ''inventory'' \<noteq> lookup fs ''stock'' \<longrightarrow>
                lookup fs' ''inventory'' \<noteq> lookup fs ''inventory'')
           \<and> (lookup fs ''update_source'' \<noteq> JStr ''Foxy-Orderdesk-Webhook'' \<longrightarrow>
                lookup fs' ''update_source'' \<noteq> lookup fs ''update_source'')
           \<and> (''inventory'' \<in> fst ` set fs \<and> ''update_source'' \<in> fst ` set fs \<longrightarrow>
                map fst fs' = map fst fs)"
proof -
  define fs' where "fs' = AList.update ''inventory'' (lookup fs ''stock'')
                            (AList.update ''update_source'' (JStr ''Foxy-Orderdesk-Webhook'') fs)"
  have "convertToCanonical h (JRef a) = Inr (JRef (length h), h @ [Obj fs'])"
    unfolding fs'_def using assms(1,2) by (rule convert_object)
  moreover have "lookup fs' ''inventory'' = lookup fs ''stock''"
    and "lookup fs' ''update_source'' = JStr ''Foxy-Orderdesk-Webhook''"
    by (simp_all add: fs'_def lookup_update)
  moreover have "''inventory'' \<in> fst ` set fs \<and> ''update_source'' \<in> fst ` set fs \<longrightarrow>
                   map fst fs' = map fst fs"
    by (simp add: fs'_def update_keys)
  ultimately show ?thesis by auto
qed

theorem convertToCanonical_overwrites_witness:
  "convertToCanonical
     [Obj [(''inventory'', JNum (Fin 5)), (''stock'', JNum (Fin 3)),
           (''update_source'', JStr ''manual'')]] (JRef 0)
     = Inr (JRef 1,
            [Obj [(''inventory'', JNum (Fin 5)), (''stock'', JNum (Fin 3)),
                  (''update_source'', JStr ''manual'')],
             Obj [(''inventory'', JNum (Fin 3)), (''stock'', JNum (Fin 3)),
                  (''update_source'', JStr ''Foxy-Orderdesk-Webhook'')]])"
  using convertToCanonical_overwrites
          [of 0 "[Obj [(''inventory'', JNum (Fin 5)), (''stock'', JNum (Fin 3)),
                       (''update_source'', JStr ''manual'')]]"
              "[(''inventory'', JNum (Fin 5)), (''stock'', JNum (Fin 3)),
                (''update_source'', JStr ''manual'')]"]
  by (simp add: convert_object lookup_def)

section \<open>Properties of the requests\<close>

lemma prefix_alloc: "prefix h h0 \<Longrightarrow> alloc h0 c = (a, h1) \<Longrightarrow> prefix h h1"
  by (auto simp: alloc_def prefix_def)

lemma from_json_prefix:
  "from_json rt j h = (v, h') \<Longrightarrow> prefix h h'"
  "from_json_list rt js h = (vs, h') \<Longrightarrow> prefix h h'"
  "from_json_fields rt fs acc h = (ps, h') \<Longrightarrow> prefix h h'"
proof (induction rt j h and rt js h and rt fs acc h arbitrary: v h' and vs h' and ps h'
       rule: from_json_from_json_list_from_json_fields.induct)
  case (5 rt js h)
  obtain vs h1 where l: "from_json_list rt js h = (vs, h1)" by (cases "from_json_list rt js h")
  with 5 show ?case by (auto simp: alloc_def prefix_def)
next
  case (6 rt fs h)
  obtain ps h1 where l: "from_json_fields rt fs [] h = (ps, h1)" by (cases "from_json_fields rt fs [] h")
  with 6 show ?case by (auto simp: alloc_def prefix_def)
next
  case (8 rt j js h)
  obtain v1 h1 where a: "from_json rt j h = (v1, h1)" by (cases "from_json rt j h")
  obtain vs1 h2 where b: "from_json_list rt js h1 = (vs1, h2)" by (cases "from_json_list rt js h1")
  from 8(1) [OF a] have "prefix h h1" .
  moreover from 8(2) [OF a [symmetric] refl b] have "prefix h1 h2" .
  moreover from 8(3) a b have "h' = h2" by simp
  ultimately show ?case by auto
next
  case (10 rt k j fs acc h)
  obtain v1 h1 where a: "from_json rt j h = (v1, h1)" by (cases "from_json rt j h")
  from 10(1) [OF a] have "prefix h h1" .
  moreover from 10(3) a have "from_json_fields rt fs (insert_prop k v1 acc) h1 = (ps, h')" by simp
  from 10(2) [OF a [symmetric] refl this] have "prefix h1 h'" .
  ultimately show ?case by auto
qed simp_all

lemma map_of_place_index:
  "map_of fs k = None \<Longrightarrow>
     map_of (place_index i k v fs) k' = (if k' = k then Some v else map_of fs k')"
  by (induction fs) (auto split: option.splits if_splits)

lemma map_of_insert_prop: "map_of (insert_prop k v fs) = (map_of fs)(k \<mapsto> v)"
proof (cases "map_of fs k")
  case None
  show ?thesis
  proof
    fix k'
    show "map_of (insert_prop k v fs) k' = ((map_of fs)(k \<mapsto> v)) k'"
      using None
      by (cases "index_of_key k")
         (auto simp: insert_prop_def map_of_place_index map_add_def split: option.splits)
  qed
next
  case (Some x)
  then show ?thesis
    by (simp add: insert_prop_def update_conv')
qed

lemma from_json_fields_absent:
  "from_json_fields rt fs acc h = (ps, h') \<Longrightarrow> k \<notin> fst ` set fs \<Longrightarrow> map_of ps k = map_of acc k"
proof (induction fs arbitrary: acc h)
  case Nil
  then show ?case by simp
next
  case (Cons f fs)
  obtain k1 j where f: "f = (k1, j)" by (cases f)
  obtain v1 h1 where a: "from_json rt j h = (v1, h1)" by (cases "from_json rt j h")
  from Cons.prems f a have "from_json_fields rt fs (insert_prop k1 v1 acc) h1 = (ps, h')"
    by simp
  moreover from Cons.prems f have "k \<notin> fst ` set fs" "k \<noteq> k1" by auto
  ultimately show ?case
    using Cons.IH by (simp add: map_of_insert_prop)
qed

lemma cell_at_prefix: "prefix h h' \<Longrightarrow> a < length h \<Longrightarrow> cell_at h' a = cell_at h a"
  by (auto simp: prefix_def cell_at_def nth_append)

lemma map_of_rev_None: "map_of (rev fs) k = None \<Longrightarrow> k \<notin> fst ` set fs"
  by (metis map_of_eq_None_iff set_rev)

lemma from_json_fields_present:
  "from_json_fields rt fs acc h = (ps, h') \<Longrightarrow> map_of (rev fs) k = Some jv \<Longrightarrow>
     \<exists>h1 v h2. from_json rt jv h1 = (v, h2) \<and> prefix h h1 \<and> prefix h2 h' \<and> map_of ps k = Some v"
proof (induction fs arbitrary: acc h)
  case Nil
  then show ?case by simp
next
  case (Cons f fs)
  obtain k1 j where f: "f = (k1, j)" by (cases f)
  obtain v1 h1 where a: "from_json rt j h = (v1, h1)" by (cases "from_json rt j h")
  from Cons.prems f a have rest: "from_json_fields rt fs (insert_prop k1 v1 acc) h1 = (ps, h')"
    by simp
  have p1: "prefix h h1" using a by (rule from_json_prefix)
  show ?case
  proof (cases "map_of (rev fs) k")
    case (Some jv')
    with Cons.prems f have "jv' = jv" by (simp add: map_add_def)
    with Some Cons.IH [OF rest] obtain h1' v h2
      where "from_json rt jv h1' = (v, h2)" "prefix h1 h1'" "prefix h2 h'" "map_of ps k = Some v"
      by blast
    with p1 show ?thesis by (meson prefix_order.trans)
  next
    case None
    with Cons.prems f have kj: "k = k1" "jv = j" by (auto simp: map_add_def split: if_splits)
    from None have "k \<notin> fst ` set fs" by (rule map_of_rev_None)
    with rest have "map_of ps k = map_of (insert_prop k1 v1 acc) k"
      by (rule from_json_fields_absent)
    with kj have "map_of ps k = Some v1" by (simp add: map_of_insert_prop)
    moreover have "prefix h1 h'" using rest by (rule from_json_prefix)
    ultimately show ?thesis using a kj by blast
  qed
qed

lemma join_strings_Cons:
  "join_strings sep (x # xs) = (if xs = [] then x else x @ sep @ join_strings sep xs)"
  by (cases xs) simp_all

lemma element_strings_strings: "element_strings rt h (map JStr codes) = Inr codes"
  by (induction codes) simp_all

lemma array_join_strings: "array_join rt h sep (map JStr codes) = Inr (join_strings sep codes)"
  by (simp add: array_join_def element_strings_strings)

lemma form_encode_append: "form_encode (s @ t) = form_encode s @ form_encode t"
  by (simp add: form_encode_def)

lemma form_encode_comma: "form_encode '','' = ''%2C''"
  by (simp add: form_encode_def form_encode_char_def is_alnum_def percent_def hex_digit_def)

lemma form_encode_join:
  "form_encode (join_strings '','' codes) = join_strings ''%2C'' (map form_encode codes)"
proof (induction codes)
  case Nil
  show ?case by (simp add: form_encode_def)
next
  case (Cons c cs)
  show ?case
  proof (cases cs)
    case Nil
    then show ?thesis by simp
  next
    case (Cons d ds)
    have "form_encode (join_strings '','' (c # cs))
            = form_encode c @ form_encode '','' @ form_encode (join_strings '','' cs)"
      unfolding Cons by (simp only: join_strings.simps form_encode_append)
    also have "\<dots> = form_encode c @ ''%2C'' @ join_strings ''%2C'' (map form_encode cs)"
      by (simp only: form_encode_comma Cons.IH)
    also have "\<dots> = join_strings ''%2C'' (map form_encode (c # cs))"
      unfolding Cons by simp
    finally show ?thesis .
  qed
qed

lemma form_encode_code: "form_encode ''code'' = ''code''"
  by (simp add: form_encode_def form_encode_char_def is_alnum_def)

lemma inventory_url:
  "buildEndpoint this ''inventory-items'' @ ''?''
     @ url_search_params [(''code'', join_strings '','' codes)]
   = ''https://'' @ domain this @ ''/'' @ api this @ ''inventory-items?code=''
       @ join_strings ''%2C'' (map form_encode codes)"
  by (simp add: buildEndpoint_def url_search_params_def form_encode_join form_encode_code)

lemma from_json_list_length: "from_json_list rt xs h = (vs, h') \<Longrightarrow> length vs = length xs"
proof (induction xs arbitrary: h vs h')
  case Nil
  then show ?case by simp
next
  case (Cons x xs)
  obtain v1 h1 where a: "from_json rt x h = (v1, h1)" by (cases "from_json rt x h")
  obtain vs1 h2 where b: "from_json_list rt xs h1 = (vs1, h2)" by (cases "from_json_list rt xs h1")
  from Cons.prems a b have "vs = v1 # vs1" by simp
  with Cons.IH [OF b] show ?case by simp
qed

lemma from_json_object:
  assumes "from_json rt (JsonObj fs) h = (response, h')"
  shows "\<exists>ps h1. from_json_fields rt fs [] h = (ps, h1) \<and> response = JRef (length h1)
           \<and> h' = h1 @ [Obj ps]"
proof -
  obtain ps h1 where l: "from_json_fields rt fs [] h = (ps, h1)"
    by (cases "from_json_fields rt fs [] h")
  with assms show ?thesis by (auto simp: alloc_def)
qed

lemma from_json_array:
  assumes "from_json rt (JsonArr xs) h = (v, h')"
  shows "\<exists>vs h1. from_json_list rt xs h = (vs, h1) \<and> v = JRef (length h1) \<and> h' = h1 @ [Arr vs]"
proof -
  obtain vs h1 where l: "from_json_list rt xs h = (vs, h1)"
    by (cases "from_json_list rt xs h")
  with assms show ?thesis by (auto simp: alloc_def)
qed

lemma fetch_json_ok:
  assumes "server rt req = Inr j" "from_json rt j (store_w w) = (v, h')"
  shows "fetch_json rt w req = (Inr v, \<lparr>store_w = h', sent = sent w @ [req]\<rparr>)"
  using assms by (simp add: fetch_json_def Let_def)

lemma getDefaultHeader_ok:
  "credentials this = Some c \<Longrightarrow>
     getDefaultHeader this
       = Inr [(''Content-Type'', JStr ''application/json''),
              (''ORDERDESK-API-KEY'', key_cred c),
              (''ORDERDESK-STORE-ID'', id_cred c)]"
  by (simp add: getDefaultHeader_def)

lemma field_absent:
  assumes "from_json rt (JsonObj fs) h = (response, h')" "k \<notin> fst ` set fs"
  shows "get_prop h' response k = Inr JUndefined"
proof -
  from assms(1) obtain ps h1 where l: "from_json_fields rt fs [] h = (ps, h1)"
    and r: "response = JRef (length h1)" "h' = h1 @ [Obj ps]"
    using from_json_object by blast
  from l assms(2) have "map_of ps k = None"
    using from_json_fields_absent by fastforce
  then show ?thesis
    by (simp add: r cell_at_append_last own_props_def lookup_missing)
qed

lemma field_array:
  assumes "from_json rt (JsonObj fs) h = (response, h')"
    and "map_of (rev fs) k = Some (JsonArr xs)"
  shows "\<exists>a vs. get_prop h' response k = Inr (JRef a) \<and> cell_at h' a = Arr vs
           \<and> length vs = length xs"
proof -
  from assms(1) obtain ps h1 where l: "from_json_fields rt fs [] h = (ps, h1)"
    and r: "response = JRef (length h1)" "h' = h1 @ [Obj ps]"
    using from_json_object by blast
  from from_json_fields_present [OF l assms(2)] obtain hx v hy
    where x: "from_json rt (JsonArr xs) hx = (v, hy)" and p: "prefix hy h1"
      and m: "map_of ps k = Some v"
    by blast
  from x obtain vs hz where z: "from_json_list rt xs hx = (vs, hz)"
    and v: "v = JRef (length hz)" "hy = hz @ [Arr vs]"
    using from_json_array by blast
  have "prefix hy h'" using p r(2) by (auto simp: prefix_def)
  then have "cell_at h' (length hz) = cell_at hy (length hz)"
    by (rule cell_at_prefix) (simp add: v)
  then have "cell_at h' (length hz) = Arr vs"
    by (simp add: v cell_at_append_last)
  moreover have "get_prop h' response k = Inr (JRef (length hz))"
    using m by (simp add: r v cell_at_append_last own_props_def lookup_def)
  moreover have "length vs = length xs"
    using z by (rule from_json_list_length)
  ultimately show ?thesis by blast
qed

lemma form_encode_SKU: "form_encode ''SKU1'' = ''SKU1''" "form_encode ''SKU2'' = ''SKU2''"
  by (simp_all add: form_encode_def form_encode_char_def is_alnum_def)

text \<open>
  Claim C8, as amended. For an array of codes, an adapter with credentials and a vendor
  that answers with a JSON body, \<open>fetchInventoryItems\<close> sends one GET request whose
  query string is \<open>code=\<close> followed by the encoded codes joined by \<open>%2C\<close>, the encoded
  comma, and returns what the parsed body holds under \<open>inventory_items\<close>: a reference
  to the array when the body has an array there, and \<^verbatim>\<open>undefined\<close> when the body is an
  object without that field.
\<close>

theorem fetchInventoryItems_returns_field:
  assumes "array_elems (store_w w) items = Inr (map JStr codes)"
    and "credentials this = Some c"
    and "req = \<lparr>req_url = ''https://'' @ domain this @ ''/'' @ api this
                          @ ''inventory-items?code=''
                          @ join_strings ''%2C'' (map form_encode codes),
                req_body = JUndefined,
                req_headers = [(''Content-Type'', JStr ''application/json''),
                               (''ORDERDESK-API-KEY'', key_cred c),
                               (''ORDERDESK-STORE-ID'', id_cred c)],
                req_method = ''GET''\<rparr>"
    and "server rt req = Inr j"
    and "from_json rt j (store_w w) = (response, h')"
  shows "fetchInventoryItems rt this w items
           = (get_prop h' response ''inventory_items'',
              \<lparr>store_w = h', sent = sent w @ [req]\<rparr>)
         \<and> (\<forall>fs. j = JsonObj fs \<and> ''inventory_items'' \<notin> fst ` set fs \<longrightarrow>
               get_prop h' response ''inventory_items'' = Inr JUndefined)
         \<and> (\<forall>fs xs. j = JsonObj fs
                      \<and> map_of (rev fs) ''inventory_items'' = Some (JsonArr xs) \<longrightarrow>
               (\<exists>a vs. get_prop h' response ''inventory_items'' = Inr (JRef a)
                        \<and> cell_at h' a = Arr vs \<and> length vs = length xs))"
proof -
  have url: "buildEndpoint this ''inventory-items'' @ ''?''
               @ url_search_params [(''code'', join_strings '','' codes)]
             = req_url req"
    unfolding assms(3) by (simp only: inventory_url request.simps)
  have req: "\<lparr>req_url = req_url req, req_body = JUndefined,
              req_headers = [(''Content-Type'', JStr ''application/json''),
                             (''ORDERDESK-API-KEY'', key_cred c),
                             (''ORDERDESK-STORE-ID'', id_cred c)],
              req_method = ''GET''\<rparr> = req"
    unfolding assms(3) by simp
  have "fetchInventoryItems rt this w items
           = (get_prop h' response ''inventory_items'',
              \<lparr>store_w = h', sent = sent w @ [req]\<rparr>)"
    unfolding fetchInventoryItems_def
    by (simp only: assms(1) bindE_Inr array_join_strings getDefaultHeader_ok [OF assms(2)]
          url req fetch_json_ok [OF assms(4,5)] sum.case prod.case world.simps)
  moreover have "\<forall>fs. j = JsonObj fs \<and> ''inventory_items'' \<notin> fst ` set fs \<longrightarrow>
               get_prop h' response ''inventory_items'' = Inr JUndefined"
    using field_absent assms(5) by blast
  moreover have "\<forall>fs xs. j = JsonObj fs
                      \<and> map_of (rev fs) ''inventory_items'' = Some (JsonArr xs) \<longrightarrow>
               (\<exists>a vs. get_prop h' response ''inventory_items'' = Inr (JRef a)
                        \<and> cell_at h' a = Arr vs \<and> length vs = length xs)"
    using field_array assms(5) by blast
  ultimately show ?thesis by blast
qed

theorem fetchInventoryItems_returns_field_witness:
  "fetchInventoryItems
     (example_runtime
        \<lparr>server := \<lambda>r. Inr (JsonObj [(''inventory_items'',
                                         JsonArr [JsonObj [(''code'', JsonStr ''SKU1'')]])])\<rparr>)
     example_adapter
     \<lparr>store_w = [Arr [JStr ''SKU1'', JStr ''SKU2'']], sent = []\<rparr> (JRef 0)
   = (Inr (JRef 2),
      \<lparr>store_w = [Arr [JStr ''SKU1'', JStr ''SKU2''], Obj [(''code'', JStr ''SKU1'')],
                  Arr [JRef 1], Obj [(''inventory_items'', JRef 2)]],
       sent = [\<lparr>req_url = ''https://app.orderdesk.me/api/v2/inventory-items?code=SKU1%2CSKU2'',
                req_body = JUndefined,
                req_headers = [(''Content-Type'', JStr ''application/json''),
                               (''ORDERDESK-API-KEY'', JStr ''abcDEF9''),
                               (''ORDERDESK-STORE-ID'', JStr ''12345'')],
                req_method = ''GET''\<rparr>]\<rparr>)"
proof -
  define rt where "rt = example_runtime
        \<lparr>server := \<lambda>r. Inr (JsonObj [(''inventory_items'',
                                         JsonArr [JsonObj [(''code'', JsonStr ''SKU1'')]])])\<rparr>"
  define w where "w = \<lparr>store_w = [Arr [JStr ''SKU1'', JStr ''SKU2'']], sent = []\<rparr>"
  define c where "c = \<lparr>id_cred = JStr ''12345'', key_cred = JStr ''abcDEF9''\<rparr>"
  define req where "req =
     \<lparr>req_url = ''https://app.orderdesk.me/api/v2/inventory-items?code=SKU1%2CSKU2'',
      req_body = JUndefined,
      req_headers = [(''Content-Type'', JStr ''application/json''),
                     (''ORDERDESK-API-KEY'', JStr ''abcDEF9''),
                     (''ORDERDESK-STORE-ID'', JStr ''12345'')],
      req_method = ''GET''\<rparr>"
  have a: "array_elems (store_w w) (JRef 0) = Inr (map JStr [''SKU1'', ''SKU2''])"
    by (simp add: w_def array_elems_def cell_at_def)
  have b: "credentials example_adapter = Some c"
    by (simp add: example_adapter_def c_def)
  have r: "req = \<lparr>req_url = ''https://'' @ domain example_adapter @ ''/'' @ api example_adapter
                          @ ''inventory-items?code=''
                          @ join_strings ''%2C'' (map form_encode [''SKU1'', ''SKU2'']),
                req_body = JUndefined,
                req_headers = [(''Content-Type'', JStr ''application/json''),
                               (''ORDERDESK-API-KEY'', key_cred c),
                               (''ORDERDESK-STORE-ID'', id_cred c)],
                req_method = ''GET''\<rparr>"
    by (simp add: req_def c_def example_adapter_def form_encode_SKU)
  have s: "server rt req = Inr (JsonObj [(''inventory_items'',
                                         JsonArr [JsonObj [(''code'', JsonStr ''SKU1'')]])])"
    by (simp add: rt_def)
  have f: "from_json rt (JsonObj [(''inventory_items'',
                                JsonArr [JsonObj [(''code'', JsonStr ''SKU1'')]])]) (store_w w)
             = (JRef 3, [Arr [JStr ''SKU1'', JStr ''SKU2''], Obj [(''code'', JStr ''SKU1'')],
                         Arr [JRef 1], Obj [(''inventory_items'', JRef 2)]])"
    by (simp add: w_def alloc_def insert_prop_def index_of_key_def is_digit_def)
  show ?thesis
    using fetchInventoryItems_returns_field [OF a b r s f]
    unfolding rt_def [symmetric] w_def [symmetric] req_def [symmetric]
    by (simp add: w_def cell_at_def own_props_def lookup_def)
qed

text \<open>
  Claim C8 as stated fails: when the vendor answers \<^verbatim>\<open>{}\<close>, the result is
  \<^verbatim>\<open>undefined\<close>, not an empty array. The request is the one of the claim.
\<close>

theorem fetchInventoryItems_absent_counterexample:
  "fetchInventoryItems example_runtime example_adapter
     \<lparr>store_w = [Arr [JStr ''SKU1'', JStr ''SKU2'']], sent = []\<rparr> (JRef 0)
   = (Inr JUndefined,
      \<lparr>store_w = [Arr [JStr ''SKU1'', JStr ''SKU2''], Obj []],
       sent = [\<lparr>req_url = ''https://app.orderdesk.me/api/v2/inventory-items?code=SKU1%2CSKU2'',
                req_body = JUndefined,
                req_headers = [(''Content-Type'', JStr ''application/json''),
                               (''ORDERDESK-API-KEY'', JStr ''abcDEF9''),
                               (''ORDERDESK-STORE-ID'', JStr ''12345'')],
                req_method = ''GET''\<rparr>]\<rparr>)"
proof -
  have url: "buildEndpoint example_adapter ''inventory-items'' @ ''?''
               @ url_search_params [(''code'', join_strings '','' [''SKU1'', ''SKU2''])]
             = ''https://app.orderdesk.me/api/v2/inventory-items?code=SKU1%2CSKU2''"
    unfolding inventory_url by (simp add: example_adapter_def form_encode_SKU)
  have join: "bindE (array_elems [Arr [JStr ''SKU1'', JStr ''SKU2'']] (JRef 0))
                (array_join example_runtime [Arr [JStr ''SKU1'', JStr ''SKU2'']] '','')
              = Inr (join_strings '','' [''SKU1'', ''SKU2''])"
    using array_join_strings [of example_runtime _ "'',''" "[''SKU1'', ''SKU2'']"]
    by (simp add: array_elems_def cell_at_def)
  show ?thesis
    unfolding fetchInventoryItems_def
    apply (simp only: world.simps join sum.case url)
    apply (simp add: getDefaultHeader_def fetch_json_def alloc_def own_props_def lookup_def
        cell_at_def example_adapter_def example_runtime_def)
    done
qed

section \<open>Properties of the order mapping\<close>

lemma cell_at_below: "a < length H \<Longrightarrow> cell_at (H @ ext) a = cell_at H a"
  by (simp add: cell_at_def nth_append)

lemma get_prop_below: "a < length H \<Longrightarrow> get_prop (H @ ext) (JRef a) k = get_prop H (JRef a) k"
  by (simp add: cell_at_below)

lemma get_prop_last: "get_prop (H @ [Obj fs]) (JRef (length H)) k = Inr (lookup fs k)"
  by (simp add: cell_at_append_last own_props_def)

lemma set_prop_last: "set_prop (H @ [Obj fs]) (length H) k v = H @ [Obj (AList.update k v fs)]"
  by (simp add: set_prop_def cell_at_append_last)

lemma delete_prop_last: "delete_prop (H @ [Obj fs]) (length H) k = H @ [Obj (AList.delete k fs)]"
  by (simp add: delete_prop_def cell_at_append_last)

lemma run_order:
  assumes "b < length H" "cu < length H" "p < length H" "cell_at H p = Obj []"
  shows "run (order_fields rt (JRef b) (JRef cu) (JRef p) fxItems customer shipping (length H))
               (H @ [Obj []])
          = Inr (H @ [Obj [(''id'', lookup (own_props (cell_at H b)) ''id''),
                           (''email'', lookup (own_props (cell_at H b)) ''customer_email''),
                           (''customer'', JRef customer),
                           (''shipping'', JRef shipping),
                           (''source_name'', JStr ''Foxy.io''),
                           (''customer_id'', lookup (own_props (cell_at H cu)) ''id''),
                           (''product_total'', lookup (own_props (cell_at H b)) ''total_item_price''),
                           (''shipping_total'', lookup (own_props (cell_at H b)) ''total_shipping''),
                           (''tax_total'', lookup (own_props (cell_at H b)) ''total_tax''),
                           (''discount_total'', lookup (own_props (cell_at H b)) ''total_discount''),
                           (''order_total'', lookup (own_props (cell_at H b)) ''total_order''),
                           (''cc_number_masked'', JUndefined),
                           (''cc_exp'', JStr ''undefined/undefined''),
                           (''processor_response'', JUndefined),
                           (''payment_sattus'', JUndefined),
                           (''payment_type'', JUndefined),
                           (''order_items'', fxItems)]])"
proof -
  have pay: "\<And>fs k. get_prop (H @ [Obj fs]) (JRef p) k = Inr JUndefined"
    using assms(3,4) by (simp add: cell_at_below own_props_def lookup_def)
  have body: "\<And>fs k. get_prop (H @ [Obj fs]) (JRef b) k = Inr (lookup (own_props (cell_at H b)) k)"
    using assms(1) by (simp add: cell_at_below)
  have cust: "\<And>fs k. get_prop (H @ [Obj fs]) (JRef cu) k = Inr (lookup (own_props (cell_at H cu)) k)"
    using assms(2) by (simp add: cell_at_below)
  show ?thesis
    by (simp add: order_fields_def assign_def pay body cust get_prop_last set_prop_last lookup_def
          del: get_prop.simps)
qed

lemma embedded_object:
  assumes "b < length h" "h ! b = Obj bf" "lookup bf ''_embedded'' = JRef e"
    and "e < length h" "h ! e = Obj ef"
  shows "embedded (h @ ext) (JRef b) k = Inr (lookup ef k)"
proof -
  have "cell_at (h @ ext) b = Obj bf" "cell_at (h @ ext) e = Obj ef"
    using assms by (simp_all add: cell_at_def nth_append)
  then show ?thesis
    by (simp add: embedded_def own_props_def assms(3))
qed

lemma first_or_empty_absent:
  assumes "embedded h body k = Inr JUndefined"
  shows "first_or_empty h body k = Inr (JRef (length h), h @ [Obj []])"
  using assms by (simp add: first_or_empty_def alloc_def)

lemma bindE_pair_Inr:
  "bindE m (\<lambda>(x, y). f x y) = Inr r \<longleftrightarrow> (\<exists>x y. m = Inr (x, y) \<and> f x y = Inr r)"
  by (cases m) auto

lemma first_or_empty_cases:
  assumes "first_or_empty h body k = Inr (v, h1)"
  shows "h1 = h \<or> (h1 = h @ [Obj []] \<and> v = JRef (length h))"
  using assms
  by (auto simp: first_or_empty_def bindE_eq_Inr alloc_def split: if_splits)

lemma set_prop_frame:
  "length (set_prop h a k v) = length h \<and> (\<forall>x. x \<noteq> a \<longrightarrow> set_prop h a k v ! x = h ! x)"
  by (simp add: set_prop_def split: cell.splits)

lemma delete_prop_frame:
  "length (delete_prop h a k) = length h \<and> (\<forall>x. x \<noteq> a \<longrightarrow> delete_prop h a k ! x = h ! x)"
  by (simp add: delete_prop_def split: cell.splits)

lemma assign_frame:
  assumes "assign a k rhs h = Inr h'"
  shows "length h' = length h \<and> (\<forall>x. x \<noteq> a \<longrightarrow> h' ! x = h ! x)"
  using assms set_prop_frame by (auto simp: assign_def bindE_eq_Inr)

lemma run_frame:
  assumes "\<forall>s\<in>set ss. \<exists>k rhs. s = assign a k rhs" "run ss h = Inr h'"
  shows "length h' = length h \<and> (\<forall>x. x \<noteq> a \<longrightarrow> h' ! x = h ! x)"
  using assms
proof (induction ss arbitrary: h)
  case Nil
  then show ?case by simp
next
  case (Cons s ss)
  from Cons.prems(1) obtain k rhs where s: "s = assign a k rhs" by auto
  from Cons.prems(2) obtain h1 where h1: "s h = Inr h1" "run ss h1 = Inr h'"
    by (auto simp: bindE_eq_Inr)
  from h1(1) s have "length h1 = length h \<and> (\<forall>x. x \<noteq> a \<longrightarrow> h1 ! x = h ! x)"
    using assign_frame by blast
  moreover from Cons.IH [OF _ h1(2)] Cons.prems(1)
  have "length h' = length h1 \<and> (\<forall>x. x \<noteq> a \<longrightarrow> h' ! x = h1 ! x)" by simp
  ultimately show ?case by simp
qed

lemma order_fields_assign:
  "\<forall>s\<in>set (order_fields rt body fxCustomer fxPayment fxItems customer shipping order).
      \<exists>k rhs. s = assign order k rhs"
  unfolding order_fields_def by (simp only: list.set ball_simps) blast

lemma prefix_same_except:
  assumes "prefix h0 h" "length h' = length h" "\<forall>x. x \<noteq> a \<longrightarrow> h' ! x = h ! x" "length h0 \<le> a"
  shows "prefix h0 h'"
proof -
  from assms(1) have le: "length h0 \<le> length h" and t: "take (length h0) h = h0"
    by (auto simp: prefix_def)
  have "take (length h0) h' = take (length h0) h"
    using assms(2,3,4) le by (intro nth_equalityI) auto
  with t have "take (length h0) h' = h0" by simp
  then show ?thesis
    by (metis take_is_prefix)
qed

lemma delete_prop_last2:
  "delete_prop (h @ [c, Obj fs]) (Suc (length h)) k = h @ [c, Obj (AList.delete k fs)]"
  using delete_prop_last [of "h @ [c]" fs k] by simp

lemma build_order_steps:
  assumes "build_order rt h body = Inr (order, h')"
  shows "\<exists>fxCustomer fxShipment h1 fxPayment h2 fxItems c.
           first_or_empty h body ''fx:shipments'' = Inr (fxShipment, h1)
           \<and> first_or_empty h1 body ''fx:payments'' = Inr (fxPayment, h2)
           \<and> order = JRef (Suc (Suc (length h2)))
           \<and> run (order_fields rt body fxCustomer fxPayment fxItems
                     (length h2) (Suc (length h2)) (Suc (Suc (length h2))))
                 (h2 @ [c, Obj (AList.delete ''_links'' (spread (h2 @ [c]) fxShipment)), Obj []])
               = Inr h'"
  using assms unfolding build_order_def
  apply (auto simp: bindE_eq_Inr bindE_pair_Inr alloc_def Let_def delete_prop_last2)
  apply blast
  done

lemma first_or_empty_prefix:
  "first_or_empty h body k = Inr (v, h1) \<Longrightarrow> prefix h h1"
  using first_or_empty_cases by fastforce

lemma run_append: "run (xs @ ys) h = bindE (run xs h) (run ys)"
  by (induction xs arbitrary: h) (simp_all add: bindE_def split: sum.splits)

lemma assign_obj:
  assumes "assign a k rhs h = Inr h'" "a < length h" "cell_at h a = Obj fs"
  shows "\<exists>v. cell_at h' a = Obj (AList.update k v fs) \<and> length h' = length h"
  using assms by (auto simp: assign_def bindE_eq_Inr set_prop_def cell_at_def)

lemma run_keeps_key:
  assumes "\<forall>s\<in>set ss. \<exists>k' rhs. s = assign a k' rhs \<and> k' \<noteq> k"
    and "run ss h = Inr h'" "a < length h" "cell_at h a = Obj fs"
  shows "\<exists>fs'. cell_at h' a = Obj fs' \<and> lookup fs' k = lookup fs k"
  using assms
proof (induction ss arbitrary: h fs)
  case Nil
  then show ?case by simp
next
  case (Cons s ss)
  from Cons.prems(1) obtain k' rhs where s: "s = assign a k' rhs" "k' \<noteq> k" by auto
  from Cons.prems(2) obtain h1 where h1: "s h = Inr h1" "run ss h1 = Inr h'"
    by (auto simp: bindE_eq_Inr)
  from assign_obj [OF h1(1) [unfolded s(1)] Cons.prems(3,4)] obtain v
    where v: "cell_at h1 a = Obj (AList.update k' v fs)" "length h1 = length h"
    by blast
  from Cons.prems(1) have rest: "\<forall>s\<in>set ss. \<exists>k' rhs. s = assign a k' rhs \<and> k' \<noteq> k"
    by simp
  from Cons.IH [OF rest h1(2) _ v(1)] Cons.prems(3) v(2)
  obtain fs' where "cell_at h' a = Obj fs'" "lookup fs' k = lookup (AList.update k' v fs) k"
    by auto
  with s(2) show ?case by (simp add: lookup_update)
qed

lemma order_fields_head:
  "take 4 (order_fields rt body fxCustomer fxPayment fxItems customer shipping order)
     = [assign order ''id'' (\<lambda>h. get_prop h body ''id''),
        assign order ''email'' (\<lambda>h. get_prop h body ''customer_email''),
        assign order ''customer'' (\<lambda>h. Inr (JRef customer)),
        assign order ''shipping'' (\<lambda>h. Inr (JRef shipping))]"
  by (simp add: order_fields_def)

lemma order_fields_tail:
  "\<forall>s\<in>set (drop 4 (order_fields rt body fxCustomer fxPayment fxItems customer shipping order)).
      \<exists>k' rhs. s = assign order k' rhs \<and> k' \<noteq> ''shipping''"
  by (simp add: order_fields_def) blast

lemma run_take_drop:
  assumes "run ss h = Inr h'"
  shows "\<exists>g. run (take n ss) h = Inr g \<and> run (drop n ss) g = Inr h'"
proof -
  have "run (take n ss @ drop n ss) h = Inr h'" using assms by simp
  then show ?thesis
    unfolding run_append by (simp add: bindE_eq_Inr)
qed

lemma run_four:
  assumes "run [s1, s2, s3, s4] h = Inr h'"
  shows "\<exists>g1 g2 g3. s1 h = Inr g1 \<and> s2 g1 = Inr g2 \<and> s3 g2 = Inr g3 \<and> s4 g3 = Inr h'"
  using assms by (auto simp: bindE_eq_Inr)

lemma order_shipping_field:
  assumes run: "run (order_fields rt body fxCustomer fxPayment fxItems customer shipping a) H
                  = Inr h'"
    and aH: "a < length H" "cell_at H a = Obj []"
  shows "\<exists>fs'. cell_at h' a = Obj fs' \<and> lookup fs' ''shipping'' = JRef shipping"
proof -
  define ss where "ss = order_fields rt body fxCustomer fxPayment fxItems customer shipping a"
  from run_take_drop [OF run, of 4] obtain h4
    where h4: "run (take 4 ss) H = Inr h4" "run (drop 4 ss) h4 = Inr h'"
    unfolding ss_def by blast
  from h4(1) have "run [assign a ''id'' (\<lambda>h. get_prop h body ''id''),
        assign a ''email'' (\<lambda>h. get_prop h body ''customer_email''),
        assign a ''customer'' (\<lambda>h. Inr (JRef customer)),
        assign a ''shipping'' (\<lambda>h. Inr (JRef shipping))] H = Inr h4"
    unfolding ss_def order_fields_head .
  from run_four [OF this] obtain g1 g2 g3
      where g: "assign a ''id'' (\<lambda>h. get_prop h body ''id'') H = Inr g1"
        "assign a ''email'' (\<lambda>h. get_prop h body ''customer_email'') g1 = Inr g2"
        "assign a ''customer'' (\<lambda>h. Inr (JRef customer)) g2 = Inr g3"
        "assign a ''shipping'' (\<lambda>h. Inr (JRef shipping)) g3 = Inr h4"
    by blast
  from assign_obj [OF g(1) aH] obtain v1
    where 1: "cell_at g1 a = Obj (AList.update ''id'' v1 [])" "length g1 = length H"
    by blast
  have a1: "a < length g1" using aH(1) 1(2) by simp
  from assign_obj [OF g(2) a1 1(1)] obtain v2
    where 2: "cell_at g2 a = Obj (AList.update ''email'' v2 (AList.update ''id'' v1 []))"
      "length g2 = length g1"
    by blast
  have a2: "a < length g2" using a1 2(2) by simp
  from assign_obj [OF g(3) a2 2(1)] obtain v3
    where 3: "cell_at g3 a = Obj (AList.update ''customer'' v3
                (AList.update ''email'' v2 (AList.update ''id'' v1 [])))"
      "length g3 = length g2"
    by blast
  have a3: "a < length g3" using a2 3(2) by simp
  define f3 where "f3 = AList.update ''customer'' v3
                (AList.update ''email'' v2 (AList.update ''id'' v1 []))"
  have c3: "cell_at g3 a = Obj f3" using 3(1) by (simp only: f3_def)
  have h4eq: "h4 = set_prop g3 a ''shipping'' (JRef shipping)"
    using g(4) by (simp add: assign_def)
  have 4: "cell_at h4 a = Obj (AList.update ''shipping'' (JRef shipping) f3)"
    "length h4 = length g3"
    using c3 a3 unfolding h4eq by (simp_all add: set_prop_def cell_at_def)
  have a4: "a < length h4" using a3 4(2) by simp
  from run_keeps_key [OF order_fields_tail h4(2) [unfolded ss_def] a4 4(1)]
  obtain fs' where "cell_at h' a = Obj fs'"
    "lookup fs' ''shipping'' = lookup (AList.update ''shipping'' (JRef shipping) f3) ''shipping''"
    by blast
  then show ?thesis
    by (simp add: lookup_update)
qed

lemma build_order_fresh:
  assumes "build_order rt h body = Inr (order, h')"
  shows "prefix h h'
         \<and> (\<exists>s fs. get_prop h' order ''shipping'' = Inr (JRef s) \<and> length h \<le> s
                    \<and> cell_at h' s = Obj fs \<and> map_of fs ''_links'' = None)"
proof -
  from build_order_steps [OF assms] obtain fxCustomer fxShipment h1 fxPayment h2 fxItems c
    where ship: "first_or_empty h body ''fx:shipments'' = Inr (fxShipment, h1)"
      and pay: "first_or_empty h1 body ''fx:payments'' = Inr (fxPayment, h2)"
      and order: "order = JRef (Suc (Suc (length h2)))"
      and run: "run (order_fields rt body fxCustomer fxPayment fxItems
                     (length h2) (Suc (length h2)) (Suc (Suc (length h2))))
                 (h2 @ [c, Obj (AList.delete ''_links'' (spread (h2 @ [c]) fxShipment)), Obj []])
               = Inr h'"
    by blast
  define a where "a = Suc (Suc (length h2))"
  define sp where "sp = AList.delete ''_links'' (spread (h2 @ [c]) fxShipment)"
  define H where "H = h2 @ [c, Obj sp, Obj []]"
  have run': "run (order_fields rt body fxCustomer fxPayment fxItems
                     (length h2) (Suc (length h2)) a) H = Inr h'"
    using run unfolding a_def H_def sp_def .
  have p2: "prefix h h2"
    using first_or_empty_prefix [OF ship] first_or_empty_prefix [OF pay]
    by (rule prefix_order.trans)
  have "prefix h2 H"
    unfolding H_def by (rule prefixI) (rule refl)
  with p2 have pH: "prefix h H"
    by (rule prefix_order.trans)
  have le: "length h \<le> length h2"
    using p2 by (rule prefix_length_le)
  have aH: "a < length H" "cell_at H a = Obj []"
    by (simp_all add: H_def a_def cell_at_def nth_append)
  have frame: "length h' = length H \<and> (\<forall>x. x \<noteq> a \<longrightarrow> h' ! x = H ! x)"
    using order_fields_assign run' by (rule run_frame)
  have la: "length h \<le> a"
    using le by (simp add: a_def)
  have pre: "prefix h h'"
    using pH frame la prefix_same_except by blast
  have sH: "Suc (length h2) < length H" "H ! Suc (length h2) = Obj sp" "Suc (length h2) \<noteq> a"
    by (simp_all add: H_def a_def nth_append)
  have "h' ! Suc (length h2) = Obj sp" "Suc (length h2) < length h'"
    using frame sH by simp_all
  then have cell: "cell_at h' (Suc (length h2)) = Obj sp"
    by (simp add: cell_at_def)
  have nolinks: "map_of sp ''_links'' = None"
    by (simp add: sp_def delete_conv')
  from order_shipping_field [OF run' aH] obtain fs'
    where "cell_at h' a = Obj fs'" "lookup fs' ''shipping'' = JRef (Suc (length h2))"
    by blast
  then have get: "get_prop h' order ''shipping'' = Inr (JRef (Suc (length h2)))"
    by (simp add: order a_def own_props_def)
  have "length h \<le> Suc (length h2)"
    using le by simp
  with pre get cell nolinks show ?thesis by blast
qed

lemma fetch_json_prefix:
  assumes "fetch_json rt w req = (r, w')"
  shows "prefix (store_w w) (store_w w')"
proof (cases "server rt req")
  case (Inl e)
  with assms have "w' = w\<lparr>sent := sent w @ [req]\<rparr>"
    by (simp add: fetch_json_def Let_def)
  then show ?thesis by simp
next
  case (Inr j)
  obtain v h' where f: "from_json rt j (store_w w) = (v, h')" by (cases "from_json rt j (store_w w)")
  with assms Inr have "store_w w' = h'" by (auto simp: fetch_json_def Let_def)
  with from_json_prefix(1) [OF f] show ?thesis by simp
qed

lemma createOrder_prefix:
  assumes "createOrder rt this w body = (r, w')"
  shows "prefix (store_w w) (store_w w')"
proof (cases "build_order rt (store_w w) body")
  case (Inl e)
  with assms have "w' = w" by (simp add: createOrder_def)
  then show ?thesis by simp
next
  case (Inr p)
  obtain order h where p: "p = (order, h)" by (cases p)
  from Inr p have b: "prefix (store_w w) h"
    using build_order_fresh by blast
  show ?thesis
  proof (cases "json_stringify rt h order")
    case (Inl e)
    with assms Inr p have "w' = w\<lparr>store_w := h\<rparr>" by (simp add: createOrder_def Let_def)
    with b show ?thesis by simp
  next
    case js: (Inr body')
    show ?thesis
    proof (cases "getDefaultHeader this")
      case (Inl e)
      with assms Inr p js have "w' = w\<lparr>store_w := h\<rparr>" by (simp add: createOrder_def Let_def)
      with b show ?thesis by simp
    next
      case hd: (Inr hdr)
      from assms Inr p js hd
      have "fetch_json rt (w\<lparr>store_w := h\<rparr>)
              \<lparr>req_url = buildEndpoint this ''orders'', req_body = body', req_headers = hdr,
               req_method = ''POST''\<rparr> = (r, w')"
        by (simp add: createOrder_def Let_def)
      from fetch_json_prefix [OF this] have "prefix h (store_w w')" by simp
      with b show ?thesis by (rule prefix_order.trans)
    qed
  qed
qed

lemma createOrder_sends_order:
  assumes "build_order rt (store_w w) body = Inr (order, h)"
    and "json_stringify rt h order = Inr b" "credentials this = Some c"
  shows "createOrder rt this w body
           = fetch_json rt (w\<lparr>store_w := h\<rparr>)
               \<lparr>req_url = ''https://'' @ domain this @ ''/'' @ api this @ ''orders'',
                req_body = b,
                req_headers = [(''Content-Type'', JStr ''application/json''),
                               (''ORDERDESK-API-KEY'', key_cred c),
                               (''ORDERDESK-STORE-ID'', id_cred c)],
                req_method = ''POST''\<rparr>"
  using assms
  by (simp add: createOrder_def Let_def getDefaultHeader_ok buildEndpoint_def)

lemma spread_prefix:
  assumes "prefix h h'" "\<forall>a. v = JRef a \<longrightarrow> a < length h"
  shows "spread h' v = spread h v"
proof (cases v)
  case (JRef a)
  with assms(2) have "a < length h" by simp
  with assms(1) have "cell_at h' a = cell_at h a" by (rule cell_at_prefix)
  with JRef show ?thesis by simp
qed simp_all

lemma first_or_empty_present:
  assumes "embedded h body k = Inr arr" "truthy arr" "get_index h arr 0 = Inr v"
  shows "first_or_empty h body k = Inr (v, h)"
  using assms by (simp add: first_or_empty_def)

lemma first_or_empty_falsy:
  assumes "embedded h body k = Inr arr" "\<not> truthy arr"
  shows "first_or_empty h body k = Inr (JRef (length h), h @ [Obj []])"
  using assms by (simp add: first_or_empty_def alloc_def)

lemma build_order_copy:
  assumes "build_order rt h body = Inr (order, h')"
  shows "\<exists>a s fs. order = JRef a \<and> a < length h'
           \<and> get_prop h' order ''shipping'' = Inr (JRef s)
           \<and> length h \<le> s \<and> s < length h' \<and> s \<noteq> a \<and> h' ! s = Obj fs
           \<and> map_of fs ''_links'' = None
           \<and> (\<forall>v h1. first_or_empty h body ''fx:shipments'' = Inr (v, h1)
                       \<and> (\<forall>x. v = JRef x \<longrightarrow> x < length h1) \<longrightarrow>
                 fs = AList.delete ''_links'' (spread h1 v))"
proof -
  from build_order_steps [OF assms] obtain fxCustomer fxShipment h1 fxPayment h2 fxItems c
    where ship: "first_or_empty h body ''fx:shipments'' = Inr (fxShipment, h1)"
      and pay: "first_or_empty h1 body ''fx:payments'' = Inr (fxPayment, h2)"
      and order: "order = JRef (Suc (Suc (length h2)))"
      and run: "run (order_fields rt body fxCustomer fxPayment fxItems
                     (length h2) (Suc (length h2)) (Suc (Suc (length h2))))
                 (h2 @ [c, Obj (AList.delete ''_links'' (spread (h2 @ [c]) fxShipment)), Obj []])
               = Inr h'"
    by blast
  define a where "a = Suc (Suc (length h2))"
  define sp where "sp = AList.delete ''_links'' (spread (h2 @ [c]) fxShipment)"
  define H where "H = h2 @ [c, Obj sp, Obj []]"
  have run': "run (order_fields rt body fxCustomer fxPayment fxItems
                     (length h2) (Suc (length h2)) a) H = Inr h'"
    using run unfolding a_def H_def sp_def .
  have p1: "prefix h h1"
    using ship by (rule first_or_empty_prefix)
  have p12: "prefix h1 h2"
    using pay by (rule first_or_empty_prefix)
  have le: "length h \<le> length h2"
    using p1 p12 by (meson prefix_length_le le_trans)
  have aH: "a < length H" "cell_at H a = Obj []"
    by (simp_all add: H_def a_def cell_at_def nth_append)
  have frame: "length h' = length H \<and> (\<forall>x. x \<noteq> a \<longrightarrow> h' ! x = H ! x)"
    using order_fields_assign run' by (rule run_frame)
  have sH: "Suc (length h2) < length H" "H ! Suc (length h2) = Obj sp" "Suc (length h2) \<noteq> a"
    by (simp_all add: H_def a_def nth_append)
  have cell: "h' ! Suc (length h2) = Obj sp" and sh': "Suc (length h2) < length h'"
    and ah': "a < length h'"
    using frame sH aH by simp_all
  have nolinks: "map_of sp ''_links'' = None"
    by (simp add: sp_def delete_conv')
  from order_shipping_field [OF run' aH] obtain fs'
    where "cell_at h' a = Obj fs'" "lookup fs' ''shipping'' = JRef (Suc (length h2))"
    by blast
  then have get: "get_prop h' order ''shipping'' = Inr (JRef (Suc (length h2)))"
    by (simp add: order a_def own_props_def)
  have copy: "sp = AList.delete ''_links'' (spread hx v)"
    if "first_or_empty h body ''fx:shipments'' = Inr (v, hx)"
      "\<forall>x. v = JRef x \<longrightarrow> x < length hx" for v hx
  proof -
    from that(1) ship have eq: "v = fxShipment" "hx = h1" by simp_all
    have "prefix h1 (h2 @ [c])"
      using p12 by (auto simp: prefix_def)
    then have "spread (h2 @ [c]) fxShipment = spread h1 fxShipment"
      using that(2) unfolding eq by (rule spread_prefix)
    then show ?thesis by (simp add: sp_def eq)
  qed
  have "length h \<le> Suc (length h2)"
    using le by simp
  with order ah' get sh' sH(3) cell nolinks copy show ?thesis
    unfolding a_def by blast
qed

lemma createOrder_keeps_order:
  assumes "build_order rt (store_w w) body = Inr (order, h)"
    and "createOrder rt this w body = (r, w')"
  shows "prefix h (store_w w')"
proof (cases "json_stringify rt h order")
  case (Inl e)
  with assms have "w' = w\<lparr>store_w := h\<rparr>" by (simp add: createOrder_def Let_def)
  then show ?thesis by simp
next
  case js: (Inr body')
  show ?thesis
  proof (cases "getDefaultHeader this")
    case (Inl e)
    with assms js have "w' = w\<lparr>store_w := h\<rparr>" by (simp add: createOrder_def Let_def)
    then show ?thesis by simp
  next
    case hd: (Inr hdr)
    from assms js hd
    have "fetch_json rt (w\<lparr>store_w := h\<rparr>)
            \<lparr>req_url = buildEndpoint this ''orders'', req_body = body', req_headers = hdr,
             req_method = ''POST''\<rparr> = (r, w')"
      by (simp add: createOrder_def Let_def)
    from fetch_json_prefix [OF this] show ?thesis by simp
  qed
qed

lemma nth_prefix: "prefix h h' \<Longrightarrow> a < length h \<Longrightarrow> a < length h' \<and> h' ! a = h ! a"
  by (auto simp: prefix_def nth_append)

lemma build_order_without_shipment_and_payment:
  assumes "b < length h" "h ! b = Obj bf"
    and "lookup bf ''_embedded'' = JRef e" "e < length h" "h ! e = Obj ef"
    and "lookup ef ''fx:customer'' = JRef cu" "cu < length h"
    and "map_of ef ''fx:shipments'' = None" "map_of ef ''fx:payments'' = None"
  shows "\<exists>order h' s fs.
           build_order rt h (JRef b) = Inr (JRef order, h')
           \<and> order < length h' \<and> h' ! order = Obj fs
           \<and> lookup fs ''shipping'' = JRef s
           \<and> length h \<le> s \<and> s < length h' \<and> h' ! s = Obj []
           \<and> lookup fs ''cc_exp'' = JStr ''undefined/undefined''"
proof -
  define C where "C = Obj [(''first_name'', lookup (own_props (cell_at h cu)) ''first_name''),
                           (''last_name'', lookup (own_props (cell_at h cu)) ''last_name'')]"
  define h1 where "h1 = h @ [Obj []]"
  define h2 where "h2 = h1 @ [Obj []]"
  define h3 where "h3 = h2 @ [C]"
  define H where "H = h3 @ [Obj []]"
  define fs where "fs =
     [(''id'', lookup (own_props (cell_at H b)) ''id''),
      (''email'', lookup (own_props (cell_at H b)) ''customer_email''),
      (''customer'', JRef (length h2)),
      (''shipping'', JRef (length h3)),
      (''source_name'', JStr ''Foxy.io''),
      (''customer_id'', lookup (own_props (cell_at H cu)) ''id''),
      (''product_total'', lookup (own_props (cell_at H b)) ''total_item_price''),
      (''shipping_total'', lookup (own_props (cell_at H b)) ''total_shipping''),
      (''tax_total'', lookup (own_props (cell_at H b)) ''total_tax''),
      (''discount_total'', lookup (own_props (cell_at H b)) ''total_discount''),
      (''order_total'', lookup (own_props (cell_at H b)) ''total_order''),
      (''cc_number_masked'', JUndefined),
      (''cc_exp'', JStr ''undefined/undefined''),
      (''processor_response'', JUndefined),
      (''payment_sattus'', JUndefined),
      (''payment_type'', JUndefined),
      (''order_items'', lookup ef ''fx:items'')]"
  note emb = embedded_object [OF assms(1-5)]
  have emb0: "\<And>k. embedded h (JRef b) k = Inr (lookup ef k)"
    using emb [of "[]"] by simp
  have cust: "embedded h (JRef b) ''fx:customer'' = Inr (JRef cu)"
    by (simp add: emb0 assms(6))
  have ship: "first_or_empty h (JRef b) ''fx:shipments'' = Inr (JRef (length h), h1)"
    unfolding h1_def
    by (rule first_or_empty_absent) (simp add: emb0 lookup_missing [OF assms(8)])
  have pay: "first_or_empty h1 (JRef b) ''fx:payments'' = Inr (JRef (length h1), h2)"
    unfolding h2_def
    by (rule first_or_empty_absent) (simp add: h1_def emb lookup_missing [OF assms(9)])
  have items: "embedded h2 (JRef b) ''fx:items'' = Inr (lookup ef ''fx:items'')"
    unfolding h2_def h1_def using emb [of "[Obj [], Obj []]"] by simp
  have names: "\<And>k. get_prop h2 (JRef cu) k = Inr (lookup (own_props (cell_at h cu)) k)"
    unfolding h2_def h1_def using assms(7) by (simp add: cell_at_def nth_append)
  have customer: "alloc h2
      (Obj [(''first_name'', lookup (own_props (cell_at h cu)) ''first_name''),
            (''last_name'', lookup (own_props (cell_at h cu)) ''last_name'')])
      = (length h2, h3)"
    by (simp add: alloc_def h3_def C_def)
  have copied: "spread h3 (JRef (length h)) = []"
    by (simp add: h3_def h2_def h1_def cell_at_def nth_append)
  have shipping: "alloc h3 (Obj []) = (length h3, H)"
    by (simp add: alloc_def H_def)
  have del: "delete_prop H (length h3) ''_links'' = H"
    unfolding H_def by (simp add: delete_prop_last)
  have order: "alloc H (Obj []) = (length H, H @ [Obj []])"
    by (simp add: alloc_def)
  have below: "b < length H" "cu < length H" "length h1 < length H"
    using assms(1,7) by (simp_all add: H_def h3_def h2_def h1_def)
  have payment_cell: "cell_at H (length h1) = Obj []"
    by (simp add: H_def h3_def h2_def cell_at_def nth_append)
  have shipping_cell: "length h \<le> length h3" "length h3 < length (H @ [Obj fs])"
    "(H @ [Obj fs]) ! length h3 = Obj []"
    by (simp_all add: H_def h3_def h2_def h1_def nth_append)
  have build: "build_order rt h (JRef b) = Inr (JRef (length H), H @ [Obj fs])"
    unfolding build_order_def fs_def
    by (simp only: cust ship pay items names bindE_Inr prod.case Let_def
          customer copied shipping del order run_order [OF below payment_cell])
  have "length H < length (H @ [Obj fs])" "(H @ [Obj fs]) ! length H = Obj fs"
    by simp_all
  moreover have "lookup fs ''shipping'' = JRef (length h3)"
    and "lookup fs ''cc_exp'' = JStr ''undefined/undefined''"
    by (simp_all add: fs_def lookup_def)
  ultimately show ?thesis
    using build shipping_cell by blast
qed

text \<open>
  Claim C7. For a payload that is an object whose \<open>_embedded\<close> object has a customer
  and neither \<open>fx:shipments\<close> nor \<open>fx:payments\<close>, the mapping of \<open>createOrder\<close>
  succeeds. The order it builds is an object of the store that has under \<open>shipping\<close> a
  reference to a new object of the store without any field, and under \<open>cc_exp\<close> the
  string \<open>undefined/undefined\<close>. \<open>createOrder\<close> goes on with exactly this order: it
  serialises it and, when that succeeds and the credentials are there, posts the text to
  the \<open>orders\<close> endpoint; the order and its shipping object are still in the store that
  \<open>createOrder\<close> leaves.
\<close>

theorem createOrder_without_shipment_and_payment:
  assumes "b < length (store_w w)" "store_w w ! b = Obj bf"
    and "lookup bf ''_embedded'' = JRef e" "e < length (store_w w)" "store_w w ! e = Obj ef"
    and "lookup ef ''fx:customer'' = JRef cu" "cu < length (store_w w)"
    and "map_of ef ''fx:shipments'' = None" "map_of ef ''fx:payments'' = None"
  shows "\<exists>order h' s fs.
           build_order rt (store_w w) (JRef b) = Inr (JRef order, h')
           \<and> order < length h' \<and> h' ! order = Obj fs
           \<and> lookup fs ''shipping'' = JRef s
           \<and> length (store_w w) \<le> s \<and> s < length h' \<and> h' ! s = Obj []
           \<and> lookup fs ''cc_exp'' = JStr ''undefined/undefined''
           \<and> createOrder rt this w (JRef b)
               = (case json_stringify rt h' (JRef order) of
                    Inl err \<Rightarrow> (Inl err, w\<lparr>store_w := h'\<rparr>)
                  | Inr text \<Rightarrow>
                      (case getDefaultHeader this of
                         Inl err \<Rightarrow> (Inl err, w\<lparr>store_w := h'\<rparr>)
                       | Inr hdr \<Rightarrow>
                           fetch_json rt (w\<lparr>store_w := h'\<rparr>)
                             \<lparr>req_url = buildEndpoint this ''orders'', req_body = text,
                              req_headers = hdr, req_method = ''POST''\<rparr>))
           \<and> prefix h' (store_w (snd (createOrder rt this w (JRef b))))"
proof -
  from build_order_without_shipment_and_payment [OF assms, of rt] obtain order h' s fs
    where b: "build_order rt (store_w w) (JRef b) = Inr (JRef order, h')"
      and facts: "order < length h'" "h' ! order = Obj fs" "lookup fs ''shipping'' = JRef s"
        "length (store_w w) \<le> s" "s < length h'" "h' ! s = Obj []"
        "lookup fs ''cc_exp'' = JStr ''undefined/undefined''"
    by blast
  have run: "createOrder rt this w (JRef b)
               = (case json_stringify rt h' (JRef order) of
                    Inl err \<Rightarrow> (Inl err, w\<lparr>store_w := h'\<rparr>)
                  | Inr text \<Rightarrow>
                      (case getDefaultHeader this of
                         Inl err \<Rightarrow> (Inl err, w\<lparr>store_w := h'\<rparr>)
                       | Inr hdr \<Rightarrow>
                           fetch_json rt (w\<lparr>store_w := h'\<rparr>)
                             \<lparr>req_url = buildEndpoint this ''orders'', req_body = text,
                              req_headers = hdr, req_method = ''POST''\<rparr>))"
    by (simp add: createOrder_def b Let_def)
  have "createOrder rt this w (JRef b)
          = (fst (createOrder rt this w (JRef b)), snd (createOrder rt this w (JRef b)))"
    by simp
  with b have "prefix h' (store_w (snd (createOrder rt this w (JRef b))))"
    by (rule createOrder_keeps_order)
  with b facts run show ?thesis by blast
qed

theorem createOrder_without_shipment_and_payment_witness:
  "\<exists>order h' s fs.
     build_order example_runtime (store_w \<lparr>store_w = example_bare_order_store, sent = []\<rparr>)
        (JRef 0) = Inr (JRef order, h')
     \<and> order < length h' \<and> h' ! order = Obj fs
     \<and> lookup fs ''shipping'' = JRef s
     \<and> length (store_w \<lparr>store_w = example_bare_order_store, sent = []\<rparr>) \<le> s
     \<and> s < length h' \<and> h' ! s = Obj []
     \<and> lookup fs ''cc_exp'' = JStr ''undefined/undefined''
     \<and> createOrder example_runtime example_adapter
          \<lparr>store_w = example_bare_order_store, sent = []\<rparr> (JRef 0)
         = (case json_stringify example_runtime h' (JRef order) of
              Inl err \<Rightarrow>
                (Inl err, \<lparr>store_w = example_bare_order_store, sent = []\<rparr>\<lparr>store_w := h'\<rparr>)
            | Inr text \<Rightarrow>
                (case getDefaultHeader example_adapter of
                   Inl err \<Rightarrow>
                     (Inl err,
                      \<lparr>store_w = example_bare_order_store, sent = []\<rparr>\<lparr>store_w := h'\<rparr>)
                 | Inr hdr \<Rightarrow>
                     fetch_json example_runtime
                       (\<lparr>store_w = example_bare_order_store, sent = []\<rparr>\<lparr>store_w := h'\<rparr>)
                       \<lparr>req_url = buildEndpoint example_adapter ''orders'', req_body = text,
                        req_headers = hdr, req_method = ''POST''\<rparr>))
     \<and> prefix h'
          (store_w (snd (createOrder example_runtime example_adapter
                           \<lparr>store_w = example_bare_order_store, sent = []\<rparr> (JRef 0))))"
proof (rule createOrder_without_shipment_and_payment)
  show "0 < length (store_w \<lparr>store_w = example_bare_order_store, sent = []\<rparr>)"
    by (simp add: example_bare_order_store_def)
  show "store_w \<lparr>store_w = example_bare_order_store, sent = []\<rparr> ! 0
          = Obj [(''id'', JNum (Fin 7)), (''customer_email'', JStr ''ann@example.org''),
                 (''_embedded'', JRef 1)]"
    by (simp add: example_bare_order_store_def)
  show "lookup [(''id'', JNum (Fin 7)), (''customer_email'', JStr ''ann@example.org''),
                (''_embedded'', JRef 1)] ''_embedded'' = JRef 1"
    by (simp add: lookup_def)
  show "1 < length (store_w \<lparr>store_w = example_bare_order_store, sent = []\<rparr>)"
    by (simp add: example_bare_order_store_def)
  show "store_w \<lparr>store_w = example_bare_order_store, sent = []\<rparr> ! 1
          = Obj [(''fx:customer'', JRef 2), (''fx:items'', JRef 3)]"
    by (simp add: example_bare_order_store_def)
  show "lookup [(''fx:customer'', JRef 2), (''fx:items'', JRef 3)] ''fx:customer'' = JRef 2"
    by (simp add: lookup_def)
  show "2 < length (store_w \<lparr>store_w = example_bare_order_store, sent = []\<rparr>)"
    by (simp add: example_bare_order_store_def)
  show "map_of [(''fx:customer'', JRef 2), (''fx:items'', JRef 3)] ''fx:shipments'' = None"
    by simp
  show "map_of [(''fx:customer'', JRef 2), (''fx:items'', JRef 3)] ''fx:payments'' = None"
    by simp
qed

lemma example_build_order:
 "build_order example_runtime example_order_store (JRef 0)
  = Inr (JRef 9,
     example_order_store @
     [Obj [],
      Obj [(''first_name'', JStr ''Ann''), (''last_name'', JStr ''Lee'')],
      Obj [(''city'', JStr ''Paris'')],
      Obj [(''id'', JNum (Fin 7)), (''email'', JUndefined),
           (''customer'', JRef 7), (''shipping'', JRef 8),
           (''source_name'', JStr ''Foxy.io''),
           (''customer_id'', JUndefined), (''product_total'', JUndefined),
           (''shipping_total'', JUndefined), (''tax_total'', JUndefined),
           (''discount_total'', JUndefined), (''order_total'', JUndefined),
           (''cc_number_masked'', JUndefined),
           (''cc_exp'', JStr ''undefined/undefined''),
           (''processor_response'', JUndefined),
           (''payment_sattus'', JUndefined), (''payment_type'', JUndefined),
           (''order_items'', JUndefined)]])"
  by (simp add: example_order_store_def build_order_def order_fields_def embedded_def
        first_or_empty_def alloc_def cell_at_def own_props_def lookup_def delete_prop_def
        set_prop_def assign_def nth_append)

lemma example_createOrder:
  "createOrder example_runtime example_adapter \<lparr>store_w = example_order_store, sent = []\<rparr>
     (JRef 0)
   = (Inr (JRef 10),
      \<lparr>store_w =
         example_order_store @
         [Obj [],
          Obj [(''first_name'', JStr ''Ann''), (''last_name'', JStr ''Lee'')],
          Obj [(''city'', JStr ''Paris'')],
          Obj [(''id'', JNum (Fin 7)), (''email'', JUndefined),
               (''customer'', JRef 7), (''shipping'', JRef 8),
               (''source_name'', JStr ''Foxy.io''),
               (''customer_id'', JUndefined), (''product_total'', JUndefined),
               (''shipping_total'', JUndefined), (''tax_total'', JUndefined),
               (''discount_total'', JUndefined), (''order_total'', JUndefined),
               (''cc_number_masked'', JUndefined),
               (''cc_exp'', JStr ''undefined/undefined''),
               (''processor_response'', JUndefined),
               (''payment_sattus'', JUndefined), (''payment_type'', JUndefined),
               (''order_items'', JUndefined)],
          Obj []],
       sent =
         [\<lparr>req_url = ''https://app.orderdesk.me/api/v2/orders'',
           req_body = JStr ''{}'',
           req_headers =
             [(''Content-Type'', JStr ''application/json''),
              (''ORDERDESK-API-KEY'', JStr ''abcDEF9''),
              (''ORDERDESK-STORE-ID'', JStr ''12345'')],
           req_method = ''POST''\<rparr>]\<rparr>)"
  unfolding createOrder_def
  apply (simp only: world.simps example_build_order sum.case prod.case Let_def)
  apply (simp add: example_runtime_def example_adapter_def getDefaultHeader_def
        buildEndpoint_def fetch_json_def alloc_def example_order_store_def)
  done

text \<open>
  Claim C9, as amended. \<open>createOrder\<close> mutates nothing of the caller: whatever its
  outcome, every object that was in the store before the call, the first shipment with
  its link metadata included, is there unchanged afterwards. A call that returns has
  built an order. The object that the order holds under \<open>shipping\<close> is a new one, and
  its fields are those of the first shipment (of the empty object when there are no
  shipments), in the same order, with \<open>_links\<close> deleted: the field is deleted from this
  fresh shallow copy, which is still in the store that \<open>createOrder\<close> leaves.
\<close>

theorem createOrder_mutates_no_input:
  assumes "createOrder rt this w body = (r, w')"
  shows "(a < length (store_w w) \<longrightarrow>
            a < length (store_w w') \<and> store_w w' ! a = store_w w ! a)
         \<and> ((\<exists>v. r = Inr v) \<longrightarrow>
              (\<exists>order h'. build_order rt (store_w w) body = Inr (order, h')))
         \<and> (build_order rt (store_w w) body = Inr (order, h') \<longrightarrow>
              prefix (store_w w) h' \<and> prefix h' (store_w w')
              \<and> (\<exists>s fs. get_prop (store_w w') order ''shipping'' = Inr (JRef s)
                     \<and> length (store_w w) \<le> s \<and> s < length (store_w w')
                     \<and> store_w w' ! s = Obj fs
                     \<and> map_of fs ''_links'' = None
                     \<and> (\<forall>v h1. first_or_empty (store_w w) body ''fx:shipments'' = Inr (v, h1)
                                 \<and> (\<forall>x. v = JRef x \<longrightarrow> x < length h1) \<longrightarrow>
                           fs = AList.delete ''_links'' (spread h1 v))
                     \<and> (\<forall>arr x sf. embedded (store_w w) body ''fx:shipments'' = Inr arr
                                 \<and> truthy arr
                                 \<and> get_index (store_w w) arr 0 = Inr (JRef x)
                                 \<and> x < length (store_w w) \<and> store_w w ! x = Obj sf \<longrightarrow>
                           fs = AList.delete ''_links'' sf \<and> store_w w' ! x = Obj sf)
                     \<and> (\<forall>arr. embedded (store_w w) body ''fx:shipments'' = Inr arr
                                 \<and> \<not> truthy arr \<longrightarrow>
                           fs = [])))"
proof -
  have pre: "prefix (store_w w) (store_w w')"
    using assms by (rule createOrder_prefix)
  have frame: "x < length (store_w w') \<and> store_w w' ! x = store_w w ! x"
    if "x < length (store_w w)" for x
    using pre that by (rule nth_prefix)
  have built: "\<exists>order h'. build_order rt (store_w w) body = Inr (order, h')"
    if "\<exists>v. r = Inr v"
  proof (cases "build_order rt (store_w w) body")
    case (Inl e)
    with assms have "r = Inl e" by (simp add: createOrder_def)
    with that show ?thesis by simp
  next
    case (Inr p)
    then show ?thesis by (cases p) simp
  qed
  have copy: "prefix (store_w w) h' \<and> prefix h' (store_w w')
      \<and> (\<exists>s fs. get_prop (store_w w') order ''shipping'' = Inr (JRef s)
             \<and> length (store_w w) \<le> s \<and> s < length (store_w w')
             \<and> store_w w' ! s = Obj fs
             \<and> map_of fs ''_links'' = None
             \<and> (\<forall>v h1. first_or_empty (store_w w) body ''fx:shipments'' = Inr (v, h1)
                         \<and> (\<forall>x. v = JRef x \<longrightarrow> x < length h1) \<longrightarrow>
                   fs = AList.delete ''_links'' (spread h1 v))
             \<and> (\<forall>arr x sf. embedded (store_w w) body ''fx:shipments'' = Inr arr
                         \<and> truthy arr
                         \<and> get_index (store_w w) arr 0 = Inr (JRef x)
                         \<and> x < length (store_w w) \<and> store_w w ! x = Obj sf \<longrightarrow>
                   fs = AList.delete ''_links'' sf \<and> store_w w' ! x = Obj sf)
             \<and> (\<forall>arr. embedded (store_w w) body ''fx:shipments'' = Inr arr
                         \<and> \<not> truthy arr \<longrightarrow>
                   fs = []))"
    if b: "build_order rt (store_w w) body = Inr (order, h')"
  proof -
    define h where "h = store_w w"
    have p1: "prefix h h'"
      using b build_order_fresh unfolding h_def by blast
    have p2: "prefix h' (store_w w')"
      using b assms by (rule createOrder_keeps_order)
    from build_order_copy [OF b] obtain o' s fs
      where o: "order = JRef o'" "o' < length h'"
        and get: "get_prop h' order ''shipping'' = Inr (JRef s)"
        and s: "length h \<le> s" "s < length h'" "h' ! s = Obj fs"
        and nolinks: "map_of fs ''_links'' = None"
        and copy: "\<And>v h1. first_or_empty h body ''fx:shipments'' = Inr (v, h1) \<Longrightarrow>
                     \<forall>x. v = JRef x \<longrightarrow> x < length h1 \<Longrightarrow>
                     fs = AList.delete ''_links'' (spread h1 v)"
      unfolding h_def by blast
    have "cell_at (store_w w') o' = cell_at h' o'"
      using p2 o(2) by (rule cell_at_prefix)
    with get o(1) have get': "get_prop (store_w w') order ''shipping'' = Inr (JRef s)"
      by simp
    have s': "s < length (store_w w')" "store_w w' ! s = Obj fs"
      using nth_prefix [OF p2 s(2)] s(3) by simp_all
    have present: "fs = AList.delete ''_links'' sf \<and> store_w w' ! x = Obj sf"
      if "embedded h body ''fx:shipments'' = Inr arr" "truthy arr"
        "get_index h arr 0 = Inr (JRef x)" "x < length h" "h ! x = Obj sf" for arr x sf
    proof -
      have "first_or_empty h body ''fx:shipments'' = Inr (JRef x, h)"
        using that(1-3) by (rule first_or_empty_present)
      then have "fs = AList.delete ''_links'' (spread h (JRef x))"
        using that(4) by (intro copy) simp_all
      moreover have "spread h (JRef x) = sf"
        using that(4,5) by (simp add: cell_at_def)
      moreover have "store_w w' ! x = h ! x"
        using frame that(4) unfolding h_def by simp
      ultimately show ?thesis using that(5) by simp
    qed
    have absent: "fs = []"
      if "embedded h body ''fx:shipments'' = Inr arr" "\<not> truthy arr" for arr
    proof -
      have "first_or_empty h body ''fx:shipments'' = Inr (JRef (length h), h @ [Obj []])"
        using that by (rule first_or_empty_falsy)
      then have "fs = AList.delete ''_links'' (spread (h @ [Obj []]) (JRef (length h)))"
        by (intro copy) simp_all
      then show ?thesis by (simp add: cell_at_append_last)
    qed
    from p1 p2 get' s(1) s' nolinks copy present absent show ?thesis
      unfolding h_def by blast
  qed
  from frame built copy show ?thesis by blast
qed

theorem createOrder_mutates_no_input_witness:
  "store_w (snd (createOrder example_runtime example_adapter
                   \<lparr>store_w = example_order_store, sent = []\<rparr> (JRef 0))) ! 4
     = Obj [(''_links'', JRef 5), (''city'', JStr ''Paris'')]
   \<and> (\<exists>s. get_prop (store_w (snd (createOrder example_runtime example_adapter
                                      \<lparr>store_w = example_order_store, sent = []\<rparr> (JRef 0))))
               (JRef 9) ''shipping'' = Inr (JRef s)
            \<and> 6 \<le> s
            \<and> store_w (snd (createOrder example_runtime example_adapter
                               \<lparr>store_w = example_order_store, sent = []\<rparr> (JRef 0))) ! s
                = Obj [(''city'', JStr ''Paris'')])
   \<and> (\<exists>s. 4 \<le> s
            \<and> store_w (snd (createOrder example_runtime example_adapter
                               \<lparr>store_w = example_bare_order_store, sent = []\<rparr> (JRef 0))) ! s
                = Obj [])"
proof -
  define w where "w = \<lparr>store_w = example_order_store, sent = []\<rparr>"
  define X where "X = createOrder example_runtime example_adapter w (JRef 0)"
  define sf where "sf = [(''_links'', JRef 5), (''city'', JStr ''Paris'')]"
  have sw: "store_w w = example_order_store"
    by (simp add: w_def)
  have run: "createOrder example_runtime example_adapter w (JRef 0) = (fst X, snd X)"
    by (simp add: X_def)
  obtain h' where b: "build_order example_runtime (store_w w) (JRef 0) = Inr (JRef 9, h')"
    unfolding sw using example_build_order by blast
  have a: "4 < length (store_w w)" and cell: "store_w w ! 4 = Obj sf"
    by (simp_all add: sw sf_def example_order_store_def)
  have emb: "embedded (store_w w) (JRef 0) ''fx:shipments'' = Inr (JRef 3)"
    by (simp add: sw example_order_store_def embedded_def cell_at_def own_props_def lookup_def)
  have first: "get_index (store_w w) (JRef 3) 0 = Inr (JRef 4)"
    by (simp add: sw example_order_store_def cell_at_def)
  have foe: "first_or_empty (store_w w) (JRef 0) ''fx:shipments'' = Inr (JRef 4, store_w w)"
    using emb _ first by (rule first_or_empty_present) simp
  note T = createOrder_mutates_no_input [OF run, of 4 "JRef 9" h']
  from conjunct1 [OF T] a cell have kept: "store_w (snd X) ! 4 = Obj sf"
    by simp
  note E = conjunct2 [OF conjunct2 [OF mp [OF conjunct2 [OF conjunct2 [OF T]] b]]]
  from E obtain s fs
    where s1: "get_prop (store_w (snd X)) (JRef 9) ''shipping'' = Inr (JRef s)"
      and s2: "length (store_w w) \<le> s"
      and s3: "s < length (store_w (snd X))"
      and s4: "store_w (snd X) ! s = Obj fs"
      and s5: "map_of fs ''_links'' = None"
      and spread: "\<forall>v h1. first_or_empty (store_w w) (JRef 0) ''fx:shipments'' = Inr (v, h1)
                       \<and> (\<forall>x. v = JRef x \<longrightarrow> x < length h1) \<longrightarrow>
                     fs = AList.delete ''_links'' (spread h1 v)"
      and copy: "\<forall>arr x sf. embedded (store_w w) (JRef 0) ''fx:shipments'' = Inr arr
                     \<and> truthy arr \<and> get_index (store_w w) arr 0 = Inr (JRef x)
                     \<and> x < length (store_w w) \<and> store_w w ! x = Obj sf \<longrightarrow>
                     fs = AList.delete ''_links'' sf \<and> store_w (snd X) ! x = Obj sf"
      and absent: "\<forall>arr. embedded (store_w w) (JRef 0) ''fx:shipments'' = Inr arr
                     \<and> \<not> truthy arr \<longrightarrow> fs = []"
    by (elim exE conjE) (rule that)
  have "fs = AList.delete ''_links'' (spread (store_w w) (JRef 4))"
    using spread [rule_format, of "JRef 4" "store_w w"] foe a by simp
  have "fs = AList.delete ''_links'' sf"
    using copy [rule_format, of "JRef 3" 4 sf] emb first a cell by simp
  then have fs: "fs = [(''city'', JStr ''Paris'')]"
    by (simp add: sf_def)
  have six: "6 \<le> s"
    using s2 by (simp add: sw example_order_store_def)
  have c2: "\<exists>s. get_prop (store_w (snd X)) (JRef 9) ''shipping'' = Inr (JRef s) \<and> 6 \<le> s
              \<and> store_w (snd X) ! s = Obj [(''city'', JStr ''Paris'')]"
    using s1 six s4 fs by blast

  define y where "y = \<lparr>store_w = example_bare_order_store, sent = []\<rparr>"
  define Y where "Y = createOrder example_runtime example_adapter y (JRef 0)"
  have sy: "store_w y = example_bare_order_store"
    by (simp add: y_def)
  have run_y: "createOrder example_runtime example_adapter y (JRef 0) = (fst Y, snd Y)"
    by (simp add: Y_def)
  have "\<exists>order h' s fs.
           build_order example_runtime (store_w y) (JRef 0) = Inr (JRef order, h')
           \<and> order < length h' \<and> h' ! order = Obj fs
           \<and> lookup fs ''shipping'' = JRef s
           \<and> length (store_w y) \<le> s \<and> s < length h' \<and> h' ! s = Obj []
           \<and> lookup fs ''cc_exp'' = JStr ''undefined/undefined''"
    by (rule build_order_without_shipment_and_payment
              [where bf = "[(''id'', JNum (Fin 7)), (''customer_email'', JStr ''ann@example.org''),
                            (''_embedded'', JRef 1)]"
                 and ef = "[(''fx:customer'', JRef 2), (''fx:items'', JRef 3)]"
                 and e = 1 and cu = 2])
       (simp_all add: sy example_bare_order_store_def lookup_def)
  then obtain oy hy where b_y: "build_order example_runtime (store_w y) (JRef 0) = Inr (JRef oy, hy)"
    by blast
  have emb_y: "embedded (store_w y) (JRef 0) ''fx:shipments'' = Inr JUndefined"
    by (simp add: sy example_bare_order_store_def embedded_def cell_at_def own_props_def
          lookup_def)
  note Ty = createOrder_mutates_no_input [OF run_y, of 0 "JRef oy" hy]
  note Ey = conjunct2 [OF conjunct2 [OF mp [OF conjunct2 [OF conjunct2 [OF Ty]] b_y]]]
  from Ey obtain t ft
    where t1: "get_prop (store_w (snd Y)) (JRef oy) ''shipping'' = Inr (JRef t)"
      and t2: "length (store_w y) \<le> t"
      and t3: "t < length (store_w (snd Y))"
      and t4: "store_w (snd Y) ! t = Obj ft"
      and t5: "map_of ft ''_links'' = None"
      and spread_y: "\<forall>v h1. first_or_empty (store_w y) (JRef 0) ''fx:shipments'' = Inr (v, h1)
                       \<and> (\<forall>x. v = JRef x \<longrightarrow> x < length h1) \<longrightarrow>
                     ft = AList.delete ''_links'' (spread h1 v)"
      and copy_y: "\<forall>arr x sf. embedded (store_w y) (JRef 0) ''fx:shipments'' = Inr arr
                     \<and> truthy arr \<and> get_index (store_w y) arr 0 = Inr (JRef x)
                     \<and> x < length (store_w y) \<and> store_w y ! x = Obj sf \<longrightarrow>
                     ft = AList.delete ''_links'' sf \<and> store_w (snd Y) ! x = Obj sf"
      and absent_y: "\<forall>arr. embedded (store_w y) (JRef 0) ''fx:shipments'' = Inr arr
                     \<and> \<not> truthy arr \<longrightarrow> ft = []"
    by (elim exE conjE) (rule that)
  have "ft = []"
    using absent_y [rule_format, of JUndefined] emb_y by simp
  moreover have "4 \<le> t"
    using t2 by (simp add: sy example_bare_order_store_def)
  ultimately have bare: "\<exists>s. 4 \<le> s \<and> store_w (snd Y) ! s = Obj []"
    using t4 by blast
  from kept c2 bare
  have "store_w (snd X) ! 4 = Obj sf
        \<and> (\<exists>s. get_prop (store_w (snd X)) (JRef 9) ''shipping'' = Inr (JRef s) \<and> 6 \<le> s
              \<and> store_w (snd X) ! s = Obj [(''city'', JStr ''Paris'')])
        \<and> (\<exists>s. 4 \<le> s \<and> store_w (snd Y) ! s = Obj [])"
    by (intro conjI)
  then show ?thesis
    unfolding X_def Y_def w_def y_def sf_def .
qed

text \<open>
  Claim C9 as stated fails: after \<open>createOrder\<close> has run on the payload of
  \<open>example_order_store\<close>, the shipment of the caller, at address 4, still has its
  \<open>_links\<close>; the object without them is the copy at address 8.
\<close>

theorem createOrder_shipment_keeps_links_counterexample:
  "fst (createOrder example_runtime example_adapter
          \<lparr>store_w = example_order_store, sent = []\<rparr> (JRef 0)) = Inr (JRef 10)
   \<and> cell_at example_order_store 4 = Obj [(''_links'', JRef 5), (''city'', JStr ''Paris'')]
   \<and> cell_at (store_w (snd (createOrder example_runtime example_adapter
                               \<lparr>store_w = example_order_store, sent = []\<rparr> (JRef 0)))) 4
       = Obj [(''_links'', JRef 5), (''city'', JStr ''Paris'')]
   \<and> cell_at (store_w (snd (createOrder example_runtime example_adapter
                               \<lparr>store_w = example_order_store, sent = []\<rparr> (JRef 0)))) 8
       = Obj [(''city'', JStr ''Paris'')]"
  unfolding example_createOrder
  by (simp add: example_order_store_def cell_at_def)

end
